theory Spec2Isabelle
  imports Main "HOL-Library.Word" "HOL-Library.Multiset"
begin

unbundle bit_operations_syntax

chapter \<open>The model: definitions translated from \<^verbatim>\<open>mnet.cc\<close>\<close>

text \<open>
  An assertion macro of the source (\<^verbatim>\<open>assert\<close>, \<^verbatim>\<open>VERIFY\<close>) that fails ends the process
  with \<^verbatim>\<open>std::abort\<close>.  Every function that can reach one returns an \<open>outcome\<close>.
\<close>

datatype 'a outcome = Aborted | Returned 'a

section \<open>Buffer\<close>

text \<open>
  The byte buffer: a backing allocation \<open>mem\<close> of \<open>capacity\<close> bytes and two offsets
  \<open>read_ptr \<le> write_ptr \<le> capacity\<close>.  \<^verbatim>\<open>std::size_t\<close> values are offsets into one
  allocation, far below \<open>2^64\<close>, and are modelled as natural numbers.
\<close>

type_synonym byte = "8 word"

record buffer =
  mem :: "byte list"
  read_ptr :: nat
  write_ptr :: nat
  capacity :: nat
  is_fixed :: bool

text \<open>
  Modelled from the spec: the inline members \<^verbatim>\<open>readable_size\<close>, \<^verbatim>\<open>writable_size\<close> and
  \<^verbatim>\<open>RewindBuffer\<close> are declared in the header \<^verbatim>\<open>mnet.h\<close>, not in \<^verbatim>\<open>mnet.cc\<close>.  The spec
  gives them as offset arithmetic (readable span \<open>[read_ptr, write_ptr)\<close>, writable span
  \<open>[write_ptr, capacity)\<close>) and "when readable span is empty, both offsets reset to 0
  (rewind)".
\<close>

definition readable_size :: "buffer \<Rightarrow> nat" where
  "readable_size b = write_ptr b - read_ptr b"

definition writable_size :: "buffer \<Rightarrow> nat" where
  "writable_size b = capacity b - write_ptr b"

definition RewindBuffer :: "buffer \<Rightarrow> buffer" where
  "RewindBuffer b =
     (if readable_size b = 0 then b\<lparr>read_ptr := 0, write_ptr := 0\<rparr> else b)"

text \<open>The bytes of the readable span, and the representation invariant of a buffer.\<close>

definition readable_bytes :: "buffer \<Rightarrow> byte list" where
  "readable_bytes b = take (readable_size b) (drop (read_ptr b) (mem b))"

definition buffer_ok :: "buffer \<Rightarrow> bool" where
  "buffer_ok b =
     (read_ptr b \<le> write_ptr b \<and> write_ptr b \<le> capacity b \<and> length (mem b) = capacity b)"

text \<open>
  \<^verbatim>\<open>memcpy(mem_ + at, src, n)\<close> on the backing allocation, for a copy that stays inside it.
\<close>

definition memcpy_at :: "byte list \<Rightarrow> nat \<Rightarrow> byte list \<Rightarrow> byte list" where
  "memcpy_at m at src = take at m @ src @ drop (at + length src) m"

text \<open>
  \<^verbatim>\<open>Buffer::Grow(cap)\<close>: a new allocation of \<open>cap + readable_size\<close> bytes that starts with the
  readable span.  The bytes \<^verbatim>\<open>malloc\<close> leaves uninitialised are modelled as zero.
\<close>

definition Grow :: "buffer \<Rightarrow> nat \<Rightarrow> buffer" where
  "Grow b cap =
     (if cap = 0 then b
      else
        let sz = cap + readable_size b;
            new_mem = readable_bytes b @ replicate cap 0
        in b\<lparr>mem := new_mem, write_ptr := readable_size b, read_ptr := 0, capacity := sz\<rparr>)"

text \<open>
  \<^verbatim>\<open>Buffer::Read(std::size_t* size)\<close>.  The result is the returned pointer (as an offset into
  the allocation), the value \<^verbatim>\<open>*size\<close> holds when the call returns, and the buffer.  The
  source reads \<^verbatim>\<open>*size\<close> once and never assigns through the pointer, so the second
  component is the argument itself.
\<close>

definition Read :: "buffer \<Rightarrow> nat \<Rightarrow> nat \<times> nat \<times> buffer" where
  "Read b size_in =
     (let read_sz = min size_in (readable_size b);
          mem_ptr = read_ptr b;
          b1 = b\<lparr>read_ptr := read_ptr b + read_sz\<rparr>
      in (mem_ptr, size_in, RewindBuffer b1))"

text \<open>
  \<^verbatim>\<open>Buffer::Inject(mem, length)\<close>: the source bytes are the list \<open>src\<close>, \<open>length src\<close> is the
  \<^verbatim>\<open>length\<close> argument.  \<open>append_at_write_ptr\<close> is the tail of the function: the
  \<^verbatim>\<open>memcpy\<close>, the advance of \<^verbatim>\<open>write_ptr_\<close> and the final
  \<^verbatim>\<open>assert(write_ptr_ == capacity_)\<close>, which aborts where it fails.
\<close>

definition append_at_write_ptr :: "buffer \<Rightarrow> byte list \<Rightarrow> (bool \<times> buffer) outcome" where
  "append_at_write_ptr b src =
     (let b1 = b\<lparr>mem := memcpy_at (mem b) (write_ptr b) src,
                   write_ptr := write_ptr b + length src\<rparr>
      in if write_ptr b1 = capacity b1 then Returned (True, b1) else Aborted)"

definition Inject :: "buffer \<Rightarrow> byte list \<Rightarrow> (bool \<times> buffer) outcome" where
  "Inject b src =
     (if writable_size b < length src then
        (if is_fixed b then Returned (False, b)
         else append_at_write_ptr (Grow b (length src)) src)
      else append_at_write_ptr b src)"

text \<open>
  Modelled from the spec: \<^verbatim>\<open>Buffer::Accessor\<close> is declared in \<^verbatim>\<open>mnet.h\<close>.  The spec: a scoped
  view "exposing address, size, and a committed-size field; on release, the committed size
  advances write_ptr (write-accessor) or read_ptr (read-accessor)", after which an empty
  readable span is rewound.  A write accessor views the writable tail, a read accessor
  the readable span; committing is done once per accessor.
\<close>

definition commit_write :: "buffer \<Rightarrow> nat \<Rightarrow> buffer" where
  "commit_write b n = b\<lparr>write_ptr := write_ptr b + n\<rparr>"

definition commit_read :: "buffer \<Rightarrow> nat \<Rightarrow> buffer" where
  "commit_read b n = RewindBuffer (b\<lparr>read_ptr := read_ptr b + n\<rparr>)"

section \<open>Endpoint\<close>

text \<open>
  \<^verbatim>\<open>ipv4_\<close> is a \<^verbatim>\<open>uint32_t\<close>; \<^verbatim>\<open>port_\<close> receives \<^verbatim>\<open>static_cast<uint32_t>(p)\<close> and is
  modelled with the same width.  The sentinel \<^verbatim>\<open>kEndpointError\<close> is declared in \<^verbatim>\<open>mnet.h\<close>;
  its value is a parameter \<open>k\<close> of the parsing functions.
\<close>

record endpoint =
  ipv4 :: "32 word"
  port :: "32 word"

subsection \<open>The C library: \<^verbatim>\<open>strtol\<close> and \<^verbatim>\<open>sprintf("%d")\<close>\<close>

text \<open>
  A C string is the list of its characters before the terminating NUL.  \<^verbatim>\<open>strtol(s, &pend, 10)\<close>
  on Linux (\<^verbatim>\<open>long\<close> has 64 bits): skip white space, read an optional sign, read decimal
  digits.  Without a digit nothing is converted: the value is 0, \<^verbatim>\<open>pend\<close> is \<^verbatim>\<open>s\<close> and
  \<^verbatim>\<open>errno\<close> is left alone.  A value outside \<^verbatim>\<open>long\<close> is clamped and \<^verbatim>\<open>errno\<close> becomes
  \<^verbatim>\<open>ERANGE\<close>.  The result is the value, the offset of \<^verbatim>\<open>pend\<close> from \<^verbatim>\<open>s\<close>, and the value
  of \<^verbatim>\<open>errno\<close> after the call when it was 0 before.
\<close>

definition ERANGE :: int where "ERANGE = 34"
definition LONG_MAX :: int where "LONG_MAX = 2 ^ 63 - 1"
definition LONG_MIN :: int where "LONG_MIN = - (2 ^ 63)"

definition isspace :: "char \<Rightarrow> bool" where
  "isspace c = (of_char c \<in> {9, 10, 11, 12, 13, 32 :: nat})"

definition isdigit :: "char \<Rightarrow> bool" where
  "isdigit c = (48 \<le> (of_char c :: nat) \<and> (of_char c :: nat) \<le> 57)"

definition digit_value :: "char \<Rightarrow> nat" where
  "digit_value c = of_char c - 48"

definition decimal_value :: "string \<Rightarrow> nat" where
  "decimal_value ds = foldl (\<lambda>acc c. 10 * acc + digit_value c) 0 ds"

definition strtol :: "string \<Rightarrow> int \<times> nat \<times> int" where
  "strtol s =
     (let n_space = length (takeWhile isspace s);
          s1 = dropWhile isspace s;
          negative = (s1 \<noteq> [] \<and> hd s1 = CHR ''-'');
          n_sign = (if s1 \<noteq> [] \<and> (hd s1 = CHR ''-'' \<or> hd s1 = CHR ''+'') then 1 else 0);
          ds = takeWhile isdigit (drop n_sign s1);
          v = (if negative then - int (decimal_value ds) else int (decimal_value ds));
          pend = n_space + n_sign + length ds
      in if ds = [] then (0, 0, 0)
         else if LONG_MAX < v then (LONG_MAX, pend, ERANGE)
         else if v < LONG_MIN then (LONG_MIN, pend, ERANGE)
         else (v, pend, 0))"

text \<open>\<^verbatim>\<open>sprintf(buf, "%d", n)\<close>: the decimal digits of \<open>n\<close>, after a minus sign when negative.\<close>

definition digit_char :: "nat \<Rightarrow> char" where
  "digit_char d = char_of (48 + d)"

fun decimal :: "nat \<Rightarrow> string" where
  "decimal n = (if n < 10 then [digit_char n] else decimal (n div 10) @ [digit_char (n mod 10)])"

declare decimal.simps [simp del]

definition sprintf_d :: "int \<Rightarrow> string" where
  "sprintf_d i = (if i < 0 then CHR ''-'' # decimal (nat (- i)) else decimal (nat i))"

subsection \<open>Formatting\<close>

text \<open>
  \<^verbatim>\<open>Ipv4ToString\<close> and \<^verbatim>\<open>PortToString\<close> return what \<^verbatim>\<open>sprintf\<close> wrote into \<^verbatim>\<open>buf\<close>; the
  \<^verbatim>\<open>int\<close> they return is its length.  \<^verbatim>\<open>%d\<close> prints a \<^verbatim>\<open>uint32_t\<close> argument as the
  \<^verbatim>\<open>int\<close> with the same bits.
\<close>

definition Ipv4ToString :: "endpoint \<Rightarrow> string" where
  "Ipv4ToString e =
     (let c1 = ipv4 e AND 0xff;
          c2 = drop_bit 8 (ipv4 e) AND 0xff;
          c3 = drop_bit 16 (ipv4 e) AND 0xff;
          c4 = drop_bit 24 (ipv4 e) AND 0xff
      in sprintf_d (sint c4) @ ''.'' @ sprintf_d (sint c3) @ ''.'' @
         sprintf_d (sint c2) @ ''.'' @ sprintf_d (sint c1))"

definition PortToString :: "endpoint \<Rightarrow> string" where
  "PortToString e = sprintf_d (sint (port e))"

subsection \<open>Parsing\<close>

text \<open>
  The macro \<^verbatim>\<open>PARSE(c)\<close> at offset \<open>len\<close> of \<open>buf\<close>: \<open>None\<close> is \<^verbatim>\<open>goto fail\<close>, otherwise the
  component (the \<^verbatim>\<open>long\<close> cast to \<^verbatim>\<open>uint32_t\<close>) and the offset of \<^verbatim>\<open>pend\<close> in \<open>buf\<close>.  The test
  \<^verbatim>\<open>c < 0\<close> of the source is on an unsigned value and never holds.
\<close>

definition PARSE :: "string \<Rightarrow> nat \<Rightarrow> (32 word \<times> nat) option" where
  "PARSE buf len =
     (case strtol (drop len buf) of (v, e, err) \<Rightarrow>
        let c = (word_of_int v :: 32 word)
        in if err \<noteq> 0 then None
           else if 255 < c then None
           else Some (c, len + e))"

text \<open>
  The macro \<^verbatim>\<open>CHECK()\<close>: \<^verbatim>\<open>*pend\<close> must be a dot (at the end of the string it is the NUL);
  the result is the new \<open>len\<close>.
\<close>

definition CHECK :: "string \<Rightarrow> nat \<Rightarrow> nat option" where
  "CHECK buf pend =
     (if pend < length buf \<and> buf ! pend = CHR ''.'' then Some (pend + 1) else None)"

text \<open>
  \<^verbatim>\<open>StringToIpv4\<close> and \<^verbatim>\<open>StringToPort\<close> return the \<^verbatim>\<open>int\<close> result and the endpoint after
  the call.
\<close>

definition StringToIpv4 :: "32 word \<Rightarrow> endpoint \<Rightarrow> string \<Rightarrow> int \<times> endpoint" where
  "StringToIpv4 k ep buf =
     (let fail = (- 1, ep\<lparr>port := k\<rparr>) in
      case PARSE buf 0 of None \<Rightarrow> fail | Some (c1, p1) \<Rightarrow>
      case CHECK buf p1 of None \<Rightarrow> fail | Some l1 \<Rightarrow>
      case PARSE buf l1 of None \<Rightarrow> fail | Some (c2, p2) \<Rightarrow>
      case CHECK buf p2 of None \<Rightarrow> fail | Some l2 \<Rightarrow>
      case PARSE buf l2 of None \<Rightarrow> fail | Some (c3, p3) \<Rightarrow>
      case CHECK buf p3 of None \<Rightarrow> fail | Some l3 \<Rightarrow>
      case PARSE buf l3 of None \<Rightarrow> fail | Some (c4, p4) \<Rightarrow>
        (int p4,
         ep\<lparr>ipv4 := c4 OR (push_bit 8 c3) OR (push_bit 16 c2) OR (push_bit 24 c1)\<rparr>))"

definition StringToPort :: "32 word \<Rightarrow> endpoint \<Rightarrow> string \<Rightarrow> int \<times> endpoint" where
  "StringToPort k ep buf =
     (case strtol buf of (p, pend, err) \<Rightarrow>
        if err \<noteq> 0 then (- 1, ep\<lparr>port := k\<rparr>)
        else if 65535 < p \<or> p < 0 then (- 1, ep\<lparr>port := k\<rparr>)
        else (int pend, ep\<lparr>port := word_of_int p\<rparr>))"

subsection \<open>Input shapes\<close>

text \<open>
  Vocabulary for statements about parsing: a non-empty string of decimal digits, a
  remainder that does not continue a number, and a string that does not start with a number
  (no digit, white space or sign first).
\<close>

definition digits :: "string \<Rightarrow> bool" where
  "digits ds = (ds \<noteq> [] \<and> list_all isdigit ds)"

definition no_digit_ahead :: "string \<Rightarrow> bool" where
  "no_digit_ahead rest = (case rest of [] \<Rightarrow> True | c # cs \<Rightarrow> \<not> isdigit c)"

definition not_a_number :: "string \<Rightarrow> bool" where
  "not_a_number s =
     (no_digit_ahead s \<and>
      (s = [] \<or> (\<not> isspace (hd s) \<and> hd s \<noteq> CHR ''-'' \<and> hd s \<noteq> CHR ''+'')))"

section \<open>Connected sockets\<close>

subsection \<open>Error numbers and NetState\<close>

text \<open>The Linux values of the \<^verbatim>\<open>errno\<close> constants the source names.\<close>

definition EINTR :: int where "EINTR = 4"
definition EAGAIN :: int where "EAGAIN = 11"
definition EWOULDBLOCK :: int where "EWOULDBLOCK = 11"
definition ENFILE :: int where "ENFILE = 23"
definition EMFILE :: int where "EMFILE = 24"
definition ENOBUFS :: int where "ENOBUFS = 105"

text \<open>
  Modelled from the spec: \<^verbatim>\<open>NetState\<close> is declared in \<^verbatim>\<open>mnet.h\<close>; the spec gives it as "either
  OK or (category, code)", true as a boolean exactly when OK.  \<^verbatim>\<open>Clear()\<close> makes it OK,
  \<^verbatim>\<open>CheckPoint(category, code)\<close> records the error.
\<close>

datatype state_category = kUser | kSystem

datatype netstate = StateOK | StateError state_category int

subsection \<open>User callbacks\<close>

text \<open>
  A callback is user code.  The model keeps what the library's own code can observe of
  one invocation: whether it destroys the socket it is given, and whether it installs a
  new read or write callback on it (callbacks are one-shot; re-arming from inside the
  handler is the documented way to keep going).  A close callback has two entry points,
  \<^verbatim>\<open>InvokeData\<close> and \<^verbatim>\<open>InvokeClose\<close>.
\<close>

datatype callback =
  Callback (cb_destroys: bool) (cb_installs_read: "callback option")
    (cb_installs_write: "callback option")

datatype close_callback = CloseCallback (on_data: callback) (on_close: callback)

text \<open>The invocations a callback slot receives, in order, with their arguments.\<close>

datatype invocation =
  ReadInvoked nat netstate
  | WriteInvoked nat netstate
  | CloseDataInvoked nat
  | CloseInvoked netstate

subsection \<open>The socket object\<close>

datatype socket_state = CONNECTED | CLOSING | CLOSED

text \<open>
  The \<^verbatim>\<open>bool deleted\<close> locals whose address \<^verbatim>\<open>set_notify_flag\<close> stores in the pollable: one in
  \<^verbatim>\<open>IOManager::DispatchLoop\<close>, one in \<^verbatim>\<open>Socket::OnReadNotify\<close>, one in
  \<^verbatim>\<open>Socket::OnException\<close>.
\<close>

datatype deleted_flag = DispatchLoop_deleted | OnReadNotify_deleted | OnException_deleted

record socket =
  fd :: int
  can_read :: bool
  can_write :: bool
  eof :: bool
  read_buffer :: buffer
  write_buffer :: buffer
  prev_write_size :: nat
  sock_state :: socket_state
  user_read_callback :: "callback option"
  user_write_callback :: "callback option"
  user_close_callback :: "close_callback option"
  notify_flag :: "deleted_flag option"

subsection \<open>\<^verbatim>\<open>Socket::DoRead\<close>\<close>

text \<open>
  What one \<^verbatim>\<open>readv\<close> call gives back: \<open>-1\<close> with an \<^verbatim>\<open>errno\<close>, or the bytes transferred
  (their number is the return value; none is the return value 0).  The kernel fills the
  first segment of the iovec, the writable tail of the read buffer, before the second, the
  reactor's swap buffer of \<open>swap\<close> bytes, and transfers no more than both hold.
\<close>

datatype readv_result = ReadvFailed int | ReadvReturned "byte list"

text \<open>
  One pass through the body of the \<^verbatim>\<open>do ... while(true)\<close> loop, given what \<^verbatim>\<open>readv\<close>
  returned: the loop goes round again (\<^verbatim>\<open>continue\<close>) or the function returns.
\<close>

datatype read_step =
  ReadContinue socket nat
  | ReadReturn nat netstate socket
  | ReadAbort

definition DoRead_sized :: "nat \<Rightarrow> socket \<Rightarrow> nat \<Rightarrow> nat \<Rightarrow> nat \<Rightarrow> read_step" where
  "DoRead_sized swap s read_sz sz accessor_sz =
     (if sz < swap + accessor_sz then ReadReturn (read_sz + sz) StateOK (s\<lparr>can_read := False\<rparr>)
      else ReadContinue s (read_sz + sz))"

definition DoRead_iteration :: "nat \<Rightarrow> socket \<Rightarrow> nat \<Rightarrow> readv_result \<Rightarrow> read_step" where
  "DoRead_iteration swap s read_sz r =
     (case r of
        ReadvFailed e \<Rightarrow>
          if e = EAGAIN \<or> e = EWOULDBLOCK then ReadReturn read_sz StateOK (s\<lparr>can_read := False\<rparr>)
          else if e = EINTR then ReadContinue s read_sz
          else ReadReturn read_sz (StateError kSystem e) s
      | ReadvReturned data \<Rightarrow>
          let sz = length data;
              accessor_sz = writable_size (read_buffer s);
              filled = (read_buffer s)\<lparr>mem := memcpy_at (mem (read_buffer s))
                          (write_ptr (read_buffer s)) (take accessor_sz data)\<rparr>
          in if sz = 0 then ReadReturn read_sz StateOK (s\<lparr>eof := True\<rparr>)
             else if sz \<le> accessor_sz then
               DoRead_sized swap (s\<lparr>read_buffer := commit_write filled sz\<rparr>) read_sz sz accessor_sz
             else
               (case Inject (commit_write filled accessor_sz) (drop accessor_sz data) of
                  Aborted \<Rightarrow> ReadAbort
                | Returned (ok, injected) \<Rightarrow>
                    if \<not> ok then
                      ReadReturn read_sz (StateError kSystem ENOBUFS)
                        (s\<lparr>read_buffer := injected\<rparr>)
                    else DoRead_sized swap (s\<lparr>read_buffer := injected\<rparr>) read_sz sz accessor_sz))"

text \<open>
  The loop, over the results of the successive \<^verbatim>\<open>readv\<close> calls.  \<open>None\<close>: the results given
  do not end the loop (every one was \<^verbatim>\<open>EINTR\<close> or filled both segments).  Otherwise the
  returned size, the \<^verbatim>\<open>NetState\<close> written through \<^verbatim>\<open>ok\<close>, the socket, and the results not
  consumed.
\<close>

fun DoRead_loop ::
  "nat \<Rightarrow> socket \<Rightarrow> nat \<Rightarrow> readv_result list
   \<Rightarrow> (nat \<times> netstate \<times> socket \<times> readv_result list) outcome option" where
  "DoRead_loop swap s read_sz [] = None"
| "DoRead_loop swap s read_sz (r # rs) =
     (case DoRead_iteration swap s read_sz r of
        ReadContinue s1 read_sz1 \<Rightarrow> DoRead_loop swap s1 read_sz1 rs
      | ReadReturn n st s1 \<Rightarrow> Some (Returned (n, st, s1, rs))
      | ReadAbort \<Rightarrow> Some Aborted)"

definition DoRead ::
  "nat \<Rightarrow> socket \<Rightarrow> readv_result list
   \<Rightarrow> (nat \<times> netstate \<times> socket \<times> readv_result list) outcome option" where
  "DoRead swap s results =
     (if eof s then Some (Returned (0, StateOK, s, results))
      else DoRead_loop swap s 0 results)"




text \<open>A \<^verbatim>\<open>readv\<close> result after which the loop of \<^verbatim>\<open>DoRead\<close> cannot go round again.\<close>

definition ends_read_loop :: "readv_result \<Rightarrow> bool" where
  "ends_read_loop r = (case r of ReadvFailed e \<Rightarrow> e \<noteq> EINTR | ReadvReturned data \<Rightarrow> data = [])"

text \<open>A connected socket with an empty 4-byte read buffer, for the concrete runs below.\<close>

definition example_buffer :: buffer where
  "example_buffer = \<lparr>mem = [0, 0, 0, 0], read_ptr = 0, write_ptr = 0, capacity = 4, is_fixed = False\<rparr>"

definition example_socket :: socket where
  "example_socket =
     \<lparr>fd = 5, can_read = True, can_write = True, eof = False,
      read_buffer = example_buffer, write_buffer = example_buffer,
      prev_write_size = 0, sock_state = CONNECTED,
      user_read_callback = None, user_write_callback = None, user_close_callback = None,
      notify_flag = None\<rparr>"

subsection \<open>\<^verbatim>\<open>Socket::DoWrite\<close>\<close>

text \<open>
  What one \<^verbatim>\<open>write\<close> call gives back: the \<^verbatim>\<open>ssize_t\<close> it returned and the value \<^verbatim>\<open>errno\<close>
  holds afterwards (the source reads \<^verbatim>\<open>errno\<close> also when \<^verbatim>\<open>write\<close> returned 0, where it
  is whatever an earlier call left).
\<close>

datatype write_result = WriteResult int int

text \<open>
  The loop of \<^verbatim>\<open>DoWrite\<close> over the results of the successive \<^verbatim>\<open>write\<close> calls.  Each pass
  takes a read accessor on the write buffer; it is released with the committed size (0
  on the paths that commit nothing, which leaves a non-empty buffer alone).
\<close>

fun DoWrite_loop ::
  "socket \<Rightarrow> write_result list
   \<Rightarrow> (nat \<times> netstate \<times> socket \<times> write_result list) outcome option" where
  "DoWrite_loop s [] = None"
| "DoWrite_loop s (WriteResult sz errno # rs) =
     (if sz \<le> 0 then
        (if errno = EAGAIN \<or> errno = EWOULDBLOCK then
           Some (Returned (0, StateOK, s\<lparr>can_write := False\<rparr>, rs))
         else if errno = EINTR then DoWrite_loop s rs
         else Some (Returned (prev_write_size s, StateError kSystem errno, s, rs)))
      else
        let accessor_size = readable_size (write_buffer s);
            s1 = (if nat sz < accessor_size then s\<lparr>can_write := False\<rparr> else s);
            s2 = s1\<lparr>write_buffer := commit_read (write_buffer s1) (nat sz)\<rparr>
        in Some (Returned (nat sz, StateOK, s2, rs)))"

definition DoWrite ::
  "socket \<Rightarrow> write_result list
   \<Rightarrow> (nat \<times> netstate \<times> socket \<times> write_result list) outcome option" where
  "DoWrite s results =
     (if 0 < readable_size (write_buffer s) then DoWrite_loop s results else Some Aborted)"

subsection \<open>A socket in its process\<close>

text \<open>
  The notification handlers invoke user callbacks, which may destroy the socket.  A
  \<open>world\<close> is the socket object, whether it still exists, the three \<^verbatim>\<open>deleted\<close> locals,
  the invocations made so far, and the results the kernel will give to the coming
  \<^verbatim>\<open>readv\<close> and \<^verbatim>\<open>write\<close> calls.
\<close>

record world =
  sock :: socket
  alive :: bool
  deleted_in_DispatchLoop :: bool
  deleted_in_OnReadNotify :: bool
  deleted_in_OnException :: bool
  invocations :: "invocation list"
  readv_script :: "readv_result list"
  write_script :: "write_result list"

text \<open>
  A handler returns, or fails an assertion, or is entered on (or touches) a socket that
  has been destroyed; the last carries the name of the member function.
\<close>

datatype call_result = Aborts | UseAfterFree string world | Returns world

definition get_deleted :: "deleted_flag \<Rightarrow> world \<Rightarrow> bool" where
  "get_deleted f w =
     (case f of DispatchLoop_deleted \<Rightarrow> deleted_in_DispatchLoop w
      | OnReadNotify_deleted \<Rightarrow> deleted_in_OnReadNotify w
      | OnException_deleted \<Rightarrow> deleted_in_OnException w)"

definition set_deleted :: "deleted_flag \<Rightarrow> bool \<Rightarrow> world \<Rightarrow> world" where
  "set_deleted f v w =
     (case f of DispatchLoop_deleted \<Rightarrow> w\<lparr>deleted_in_DispatchLoop := v\<rparr>
      | OnReadNotify_deleted \<Rightarrow> w\<lparr>deleted_in_OnReadNotify := v\<rparr>
      | OnException_deleted \<Rightarrow> w\<lparr>deleted_in_OnException := v\<rparr>)"

text \<open>
  \<^verbatim>\<open>bool deleted = false; set_notify_flag(&deleted);\<close> as the three functions write it.
  Modelled from the spec: \<^verbatim>\<open>set_notify_flag\<close> is declared in \<^verbatim>\<open>mnet.h\<close>; the pollable holds
  one "optional external deleted flag pointer", which the call replaces.
\<close>

definition install_deleted_flag :: "deleted_flag \<Rightarrow> world \<Rightarrow> world" where
  "install_deleted_flag f w =
     (set_deleted f False w)\<lparr>sock := (sock w)\<lparr>notify_flag := Some f\<rparr>\<rparr>"

text \<open>
  Modelled from the spec: the destructor is declared in \<^verbatim>\<open>mnet.h\<close>.  "A socket destructor
  called from within a callback sets \<^verbatim>\<open>*deleted = true\<close>": it writes through the flag
  pointer the pollable holds at that moment.
\<close>

definition destroy :: "world \<Rightarrow> world" where
  "destroy w =
     (case notify_flag (sock w) of
        None \<Rightarrow> w\<lparr>alive := False\<rparr>
      | Some f \<Rightarrow> (set_deleted f True w)\<lparr>alive := False\<rparr>)"

definition run_callback :: "callback \<Rightarrow> world \<Rightarrow> world" where
  "run_callback cb w =
     (if cb_destroys cb then destroy w
      else w\<lparr>sock := (sock w)
             \<lparr>user_read_callback :=
                (case cb_installs_read cb of None \<Rightarrow> user_read_callback (sock w) | Some c \<Rightarrow> Some c),
              user_write_callback :=
                (case cb_installs_write cb of None \<Rightarrow> user_write_callback (sock w) | Some c \<Rightarrow> Some c)\<rparr>\<rparr>)"

text \<open>
  The macro \<^verbatim>\<open>DO_INVOKE\<close> on the read and on the write slot: assert the slot is not null,
  release it, invoke the released callback.
\<close>

definition DO_INVOKE_read :: "nat \<Rightarrow> netstate \<Rightarrow> world \<Rightarrow> call_result" where
  "DO_INVOKE_read n st w =
     (case user_read_callback (sock w) of
        None \<Rightarrow> Aborts
      | Some cb \<Rightarrow>
          Returns (run_callback cb
            (w\<lparr>sock := (sock w)\<lparr>user_read_callback := None\<rparr>,
               invocations := invocations w @ [ReadInvoked n st]\<rparr>)))"

definition DO_INVOKE_write :: "nat \<Rightarrow> netstate \<Rightarrow> world \<Rightarrow> call_result" where
  "DO_INVOKE_write n st w =
     (case user_write_callback (sock w) of
        None \<Rightarrow> Aborts
      | Some cb \<Rightarrow>
          Returns (run_callback cb
            (w\<lparr>sock := (sock w)\<lparr>user_write_callback := None\<rparr>,
               invocations := invocations w @ [WriteInvoked n st]\<rparr>)))"

subsection \<open>\<^verbatim>\<open>Socket::OnWriteNotify\<close>\<close>

definition OnWriteNotify :: "world \<Rightarrow> call_result option" where
  "OnWriteNotify w =
     (if \<not> alive w then Some (UseAfterFree ''Socket::OnWriteNotify'' w)
      else
        let s1 = (sock w)\<lparr>can_write := True\<rparr> in
        if readable_size (write_buffer s1) = 0 then Some (Returns (w\<lparr>sock := s1\<rparr>))
        else
          (case DoWrite s1 (write_script w) of
             None \<Rightarrow> None
           | Some Aborted \<Rightarrow> Some Aborts
           | Some (Returned (write_sz, write_state, s2, rest)) \<Rightarrow>
               let w2 = w\<lparr>sock := s2, write_script := rest\<rparr> in
               if write_state = StateOK then
                 (if readable_size (write_buffer s2) = 0 then
                    Some (DO_INVOKE_write (prev_write_size s2 + write_sz) write_state w2)
                  else
                    Some (Returns (w2\<lparr>sock := s2\<lparr>prev_write_size := prev_write_size s2 + write_sz\<rparr>\<rparr>)))
               else Some (DO_INVOKE_write (prev_write_size s2) write_state w2)))"

text \<open>
  For the concrete runs below: a live socket with four bytes queued in its write buffer,
  ten bytes of the current logical write already flushed, a write callback installed, and
  the given results for the coming \<^verbatim>\<open>write\<close> calls.
\<close>

definition example_writer :: "write_result list \<Rightarrow> world" where
  "example_writer results =
     \<lparr>sock = example_socket
        \<lparr>write_buffer := \<lparr>mem = [1, 2, 3, 4], read_ptr = 0, write_ptr = 4, capacity = 4,
                           is_fixed = False\<rparr>,
         prev_write_size := 10,
         user_write_callback := Some (Callback False None None)\<rparr>,
      alive = True,
      deleted_in_DispatchLoop = False, deleted_in_OnReadNotify = False,
      deleted_in_OnException = False,
      invocations = [], readv_script = [], write_script = results\<rparr>"

definition without_write_callback :: "world \<Rightarrow> world" where
  "without_write_callback w = w\<lparr>sock := (sock w)\<lparr>user_write_callback := None\<rparr>\<rparr>"

subsection \<open>\<^verbatim>\<open>Socket::OnReadNotify\<close>\<close>

text \<open>
  Modelled from the spec: \<^verbatim>\<open>Socket::Close\<close> is declared in \<^verbatim>\<open>mnet.h\<close>; the spec has it "close
  the FD".
\<close>

definition Close :: "socket \<Rightarrow> socket" where
  "Close s = s\<lparr>fd := - 1\<rparr>"

text \<open>
  The three invocations of the close callback in \<^verbatim>\<open>OnReadNotify\<close>:
  \<^verbatim>\<open>user_close_callback_->InvokeData(read_sz)\<close> and
  \<^verbatim>\<open>user_close_callback_->InvokeClose(state)\<close> leave the slot as it is; on the \<open>eof\<close> path the
  slot is released first.  Going through a null slot is modelled as an abort.
\<close>

definition InvokeData :: "nat \<Rightarrow> world \<Rightarrow> call_result" where
  "InvokeData n w =
     (case user_close_callback (sock w) of
        None \<Rightarrow> Aborts
      | Some c \<Rightarrow>
          Returns (run_callback (on_data c)
            (w\<lparr>invocations := invocations w @ [CloseDataInvoked n]\<rparr>)))"

definition InvokeClose :: "netstate \<Rightarrow> world \<Rightarrow> call_result" where
  "InvokeClose st w =
     (case user_close_callback (sock w) of
        None \<Rightarrow> Aborts
      | Some c \<Rightarrow>
          Returns (run_callback (on_close c)
            (w\<lparr>invocations := invocations w @ [CloseInvoked st]\<rparr>)))"

definition InvokeClose_released :: "netstate \<Rightarrow> world \<Rightarrow> call_result" where
  "InvokeClose_released st w =
     (case user_close_callback (sock w) of
        None \<Rightarrow> Aborts
      | Some c \<Rightarrow>
          Returns (run_callback (on_close c)
            (w\<lparr>sock := (sock w)\<lparr>user_close_callback := None\<rparr>,
               invocations := invocations w @ [CloseInvoked st]\<rparr>)))"

text \<open>\<^verbatim>\<open>if( !deleted ) { Close(); state_ = CLOSED; }\<close> after the close callback.\<close>

definition close_unless_deleted :: "call_result \<Rightarrow> call_result" where
  "close_unless_deleted r =
     (case r of
        Returns w \<Rightarrow>
          if get_deleted OnReadNotify_deleted w then Returns w
          else if \<not> alive w then UseAfterFree ''Socket::Close'' w
          else Returns (w\<lparr>sock := (Close (sock w))\<lparr>sock_state := CLOSED\<rparr>\<rparr>)
      | Aborts \<Rightarrow> Aborts
      | UseAfterFree f w \<Rightarrow> UseAfterFree f w)"

definition OnReadNotify :: "nat \<Rightarrow> world \<Rightarrow> call_result option" where
  "OnReadNotify swap w =
     (if \<not> alive w then Some (UseAfterFree ''Socket::OnReadNotify'' w)
      else
        let w1 = w\<lparr>sock := (sock w)\<lparr>can_read := True\<rparr>\<rparr> in
        if user_read_callback (sock w1) = None then Some (Returns w1)
        else
          (case DoRead swap (sock w1) (readv_script w1) of
             None \<Rightarrow> None
           | Some Aborted \<Rightarrow> Some Aborts
           | Some (Returned (read_sz, st, s2, rest)) \<Rightarrow>
               let w2 = w1\<lparr>sock := s2, readv_script := rest\<rparr> in
               if sock_state s2 \<noteq> CLOSING then Some (DO_INVOKE_read read_sz st w2)
               else if st = StateOK then
                 (if 0 < read_sz then Some (InvokeData read_sz w2)
                  else if eof s2 then
                    Some (close_unless_deleted
                      (InvokeClose_released StateOK (install_deleted_flag OnReadNotify_deleted w2)))
                  else Some (Returns w2))
               else
                 Some (close_unless_deleted
                   (InvokeClose st (install_deleted_flag OnReadNotify_deleted w2)))))"

subsection \<open>\<^verbatim>\<open>Socket::OnException\<close>\<close>

definition OnException :: "netstate \<Rightarrow> world \<Rightarrow> call_result" where
  "OnException st w =
     (if \<not> alive w then UseAfterFree ''Socket::OnException'' w
      else if st = StateOK then Aborts
      else
        let w1 = install_deleted_flag OnException_deleted w;
            r1 = (if user_read_callback (sock w1) \<noteq> None then DO_INVOKE_read 0 st w1
                  else Returns w1)
        in case r1 of
             Returns w2 \<Rightarrow>
               if get_deleted OnException_deleted w2 then Returns w2
               else if \<not> alive w2 then UseAfterFree ''Socket::OnException'' w2
               else if user_write_callback (sock w2) \<noteq> None then DO_INVOKE_write 0 st w2
               else Returns w2
           | Aborts \<Rightarrow> Aborts
           | UseAfterFree f w2 \<Rightarrow> UseAfterFree f w2)"

subsection \<open>\<^verbatim>\<open>IOManager::DispatchLoop\<close>\<close>

definition EPOLLIN :: "32 word" where "EPOLLIN = 0x001"
definition EPOLLOUT :: "32 word" where "EPOLLOUT = 0x004"
definition EPOLLERR :: "32 word" where "EPOLLERR = 0x008"
definition EPOLLHUP :: "32 word" where "EPOLLHUP = 0x010"

text \<open>
  The body of the \<^verbatim>\<open>for\<close> loop of \<^verbatim>\<open>DispatchLoop\<close> for one event whose pollable is a
  connected \<^verbatim>\<open>Socket\<close>: \<open>events\<close> is \<^verbatim>\<open>event_queue[i].events\<close>, \<open>so_error\<close> is what
  \<^verbatim>\<open>getsockopt(SO_ERROR)\<close> stores in \<^verbatim>\<open>err_no\<close> (\<open>None\<close> when the call fails and \<^verbatim>\<open>VERIFY\<close>
  aborts).  \<open>DispatchEvent_hup_in_out\<close> is the part after the \<^verbatim>\<open>EPOLLERR\<close> test,
  \<open>DispatchEvent_in_out\<close> the part after the \<^verbatim>\<open>EPOLLHUP\<close> test and \<open>DispatchEvent_write\<close>
  the \<^verbatim>\<open>EPOLLOUT\<close> test with the closing \<^verbatim>\<open>VERIFY( ev == 0 )\<close>; \<open>ev\<close> is the local copy
  of the event bits.
\<close>

definition DispatchEvent_write ::
  "32 word \<Rightarrow> 32 word \<Rightarrow> world \<Rightarrow> call_result option" where
  "DispatchEvent_write events ev w =
     (let r = (if events AND EPOLLOUT \<noteq> 0 \<and> \<not> deleted_in_DispatchLoop w then OnWriteNotify w
               else Some (Returns w));
          ev1 = (if events AND EPOLLOUT \<noteq> 0 then ev AND NOT EPOLLOUT else ev)
      in case r of
           Some (Returns w1) \<Rightarrow> if ev1 = 0 then Some (Returns w1) else Some Aborts
         | other \<Rightarrow> other)"

definition DispatchEvent_in_out ::
  "nat \<Rightarrow> 32 word \<Rightarrow> 32 word \<Rightarrow> world \<Rightarrow> call_result option" where
  "DispatchEvent_in_out swap events ev w =
     (let w1 = install_deleted_flag DispatchLoop_deleted w in
      if events AND EPOLLIN \<noteq> 0 then
        (case OnReadNotify swap w1 of
           Some (Returns w2) \<Rightarrow> DispatchEvent_write events (ev AND NOT EPOLLIN) w2
         | other \<Rightarrow> other)
      else DispatchEvent_write events ev w1)"

definition DispatchEvent_hup_in_out ::
  "nat \<Rightarrow> 32 word \<Rightarrow> 32 word \<Rightarrow> world \<Rightarrow> call_result option" where
  "DispatchEvent_hup_in_out swap events ev w =
     (if events AND EPOLLHUP \<noteq> 0 then OnReadNotify swap w
      else DispatchEvent_in_out swap events ev w)"

definition DispatchEvent ::
  "nat \<Rightarrow> 32 word \<Rightarrow> int option \<Rightarrow> world \<Rightarrow> call_result option" where
  "DispatchEvent swap events so_error w =
     (if events AND EPOLLERR \<noteq> 0 then
        (case so_error of
           None \<Rightarrow> Some Aborts
         | Some err_no \<Rightarrow>
             if err_no \<noteq> 0 then Some (OnException (StateError kSystem err_no) w)
             else DispatchEvent_hup_in_out swap events (events AND NOT EPOLLERR) w)
      else DispatchEvent_hup_in_out swap events events w)"

text \<open>
  For the concrete run below: a live socket in state \<^verbatim>\<open>CLOSING\<close> that has seen end of
  file, with a read callback installed and a close callback whose \<^verbatim>\<open>InvokeClose\<close>
  destroys the socket.
\<close>

definition example_closing :: world where
  "example_closing =
     \<lparr>sock = example_socket
        \<lparr>eof := True, sock_state := CLOSING,
         user_read_callback := Some (Callback False None None),
         user_close_callback :=
           Some (CloseCallback (Callback False None None) (Callback True None None))\<rparr>,
      alive = True,
      deleted_in_DispatchLoop = False, deleted_in_OnReadNotify = False,
      deleted_in_OnException = False,
      invocations = [], readv_script = [], write_script = []\<rparr>"

section \<open>ServerSocket: accepting under descriptor exhaustion\<close>

text \<open>
  The part of the \<^verbatim>\<open>ServerSocket\<close> object that \<^verbatim>\<open>DoAccept\<close> and \<^verbatim>\<open>HandleRunOutOfFD\<close> use,
  and the process around it: \<^verbatim>\<open>errno\<close>, the system calls made so far, and the results the
  kernel will give to the coming calls.  A call that fails returns \<open>-1\<close> and sets
  \<^verbatim>\<open>errno\<close>; a call that succeeds leaves \<^verbatim>\<open>errno\<close> alone.
\<close>

record server_socket =
  listen_fd :: int
  dummy_fd :: int
  srv_can_read :: bool

datatype syscall = Call_accept4 int | Call_close int | Call_accept int | Call_open_dev_null

datatype sys_result = SysFailed int | SysReturned int

record accept_env =
  srv :: server_socket
  errno_value :: int
  sys_calls :: "syscall list"
  sys_results :: "sys_result list"

definition sys :: "syscall \<Rightarrow> accept_env \<Rightarrow> (int \<times> accept_env) option" where
  "sys c env =
     (case sys_results env of
        [] \<Rightarrow> None
      | SysFailed e # rs \<Rightarrow>
          Some (- 1, env\<lparr>errno_value := e, sys_calls := sys_calls env @ [c], sys_results := rs\<rparr>)
      | SysReturned v # rs \<Rightarrow>
          Some (v, env\<lparr>sys_calls := sys_calls env @ [c], sys_results := rs\<rparr>))"

text \<open>The value a system call with the given result returns.\<close>

definition sys_return :: "sys_result \<Rightarrow> int" where
  "sys_return r = (case r of SysFailed e \<Rightarrow> - 1 | SysReturned v \<Rightarrow> v)"

text \<open>
  \<^verbatim>\<open>ServerSocket::HandleRunOutOfFD(err)\<close>.  \<open>reopen_dummy_fd\<close> is its last statement,
  \<^verbatim>\<open>VERIFY( (dummy_fd_ = ::open("/dev/null",O_RDONLY)) >= 0 )\<close>.
\<close>

definition reopen_dummy_fd :: "accept_env \<Rightarrow> accept_env outcome option" where
  "reopen_dummy_fd env =
     (case sys Call_open_dev_null env of
        None \<Rightarrow> None
      | Some (d, env1) \<Rightarrow>
          if 0 \<le> d then Some (Returned (env1\<lparr>srv := (srv env1)\<lparr>dummy_fd := d\<rparr>\<rparr>))
          else Some Aborted)"

definition HandleRunOutOfFD :: "int \<Rightarrow> accept_env \<Rightarrow> accept_env outcome option" where
  "HandleRunOutOfFD err env =
     (if err = EMFILE \<or> err = ENFILE then
        (case sys (Call_close (dummy_fd (srv env))) env of
           None \<Rightarrow> None
         | Some (closed, env1) \<Rightarrow>
             if closed \<noteq> 0 then Some Aborted
             else
               (case sys (Call_accept (listen_fd (srv env1))) env1 of
                  None \<Rightarrow> None
                | Some (f, env2) \<Rightarrow>
                    if 0 < f then
                      (case sys (Call_close f) env2 of
                         None \<Rightarrow> None
                       | Some (closed_f, env3) \<Rightarrow>
                           if closed_f \<noteq> 0 then Some Aborted else reopen_dummy_fd env3)
                    else reopen_dummy_fd env2))
      else Some (Returned env))"

text \<open>
  \<^verbatim>\<open>ServerSocket::DoAccept(state)\<close>: the result is the returned descriptor (or \<open>-1\<close>), the
  \<^verbatim>\<open>NetState\<close> behind \<^verbatim>\<open>state\<close> (\<open>st\<close> on entry), and the process.  \<open>None\<close>: the results given
  do not end the call.
\<close>

function DoAccept_loop ::
  "netstate \<Rightarrow> accept_env \<Rightarrow> (int \<times> netstate \<times> accept_env) outcome option" where
  "DoAccept_loop st env =
     (case sys (Call_accept4 (listen_fd (srv env))) env of
        None \<Rightarrow> None
      | Some (nfd, env1) \<Rightarrow>
          if nfd < 0 then
            (if errno_value env1 = EAGAIN \<or> errno_value env1 = EWOULDBLOCK then
               Some (Returned (- 1, st, env1\<lparr>srv := (srv env1)\<lparr>srv_can_read := False\<rparr>\<rparr>))
             else if errno_value env1 = EINTR then DoAccept_loop st env1
             else
               (case HandleRunOutOfFD (errno_value env1) env1 of
                  None \<Rightarrow> None
                | Some Aborted \<Rightarrow> Some Aborted
                | Some (Returned env2) \<Rightarrow>
                    Some (Returned (- 1, StateError kSystem (errno_value env1),
                      (if errno_value env2 = EAGAIN \<or> errno_value env2 = EWOULDBLOCK
                       then env2\<lparr>srv := (srv env2)\<lparr>srv_can_read := False\<rparr>\<rparr>
                       else env2)))))
          else Some (Returned (nfd, st, env1)))"
  by pat_completeness auto
termination
  by (relation "measure (\<lambda>(st, env). length (sys_results env))")
    (auto simp: sys_def split: list.splits sys_result.splits)

declare DoAccept_loop.simps [simp del]

definition DoAccept ::
  "netstate \<Rightarrow> accept_env \<Rightarrow> (int \<times> netstate \<times> accept_env) outcome option" where
  "DoAccept st env =
     (if srv_can_read (srv env) then DoAccept_loop st env else Some Aborted)"

text \<open>
  For the concrete runs below: a listening socket on descriptor 3 with the reserved
  descriptor 4, readable, and the given results for the coming system calls.
\<close>

definition example_server :: "sys_result list \<Rightarrow> accept_env" where
  "example_server rs =
     \<lparr>srv = \<lparr>listen_fd = 3, dummy_fd = 4, srv_can_read = True\<rparr>,
      errno_value = 0, sys_calls = [], sys_results = rs\<rparr>"

section \<open>Timer queue\<close>

text \<open>
  Modelled from the spec: \<^verbatim>\<open>TimerStruct\<close> and its ordering are declared in \<^verbatim>\<open>mnet.h\<close>.  The
  spec: an entry is "(relative_time_ms, callback)" and "the queue is a min-heap ordered on
  relative time".  An entry is its relative time and the identity of its callback;
  \<^verbatim>\<open>timer_queue_.front()\<close> is an entry of least relative time (\<open>heap_front\<close>, the earliest
  such entry of the list), and \<^verbatim>\<open>std::pop_heap\<close> followed by \<^verbatim>\<open>pop_back\<close> removes it.
  Relative times are a few milliseconds to minutes; their arithmetic is modelled on
  the integers.
\<close>

record timer =
  time :: int
  callback_id :: nat

fun heap_front :: "timer list \<Rightarrow> timer" where
  "heap_front [] = \<lparr>time = 0, callback_id = 0\<rparr>"
| "heap_front [t] = t"
| "heap_front (t # ts) = (if time t \<le> time (heap_front ts) then t else heap_front ts)"

definition pop_heap :: "timer list \<Rightarrow> timer list" where
  "pop_heap q = remove1 (heap_front q) q"

text \<open>
  \<^verbatim>\<open>kMinDiff\<close> and the macro \<^verbatim>\<open>TIME_TRIGGER(diff,t)\<close>, \<^verbatim>\<open>std::abs((t)-diff) < kMinDiff\<close>.
  In the source \<open>diff\<close> is a \<^verbatim>\<open>uint64_t\<close> copy of the head's time, so the difference is
  taken in unsigned arithmetic; \<open>t\<close> is the time of a front entry, never below the
  head's, where the unsigned difference is the difference of the integers.
\<close>

definition kMinDiff :: int where "kMinDiff = 3"

definition TIME_TRIGGER :: "int \<Rightarrow> int \<Rightarrow> bool" where
  "TIME_TRIGGER diff t = (\<bar>t - diff\<bar> < kMinDiff)"

text \<open>
  The \<^verbatim>\<open>while\<close> loop of the timed-out branch: the callback of the front entry is invoked
  with the entry's time, then the entry is popped.  The result is the queue left and the
  invocations made, as (callback, argument) in order.
\<close>

function fire_timers ::
  "int \<Rightarrow> timer list \<Rightarrow> (nat \<times> int) list \<Rightarrow> timer list \<times> (nat \<times> int) list" where
  "fire_timers diff q fired =
     (if q = [] then (q, fired)
      else if TIME_TRIGGER diff (time (heap_front q)) then
        fire_timers diff (pop_heap q)
          (fired @ [(callback_id (heap_front q), time (heap_front q))])
      else (q, fired))"
  by pat_completeness auto
termination
proof (relation "measure (\<lambda>(diff, q, fired). length q)")
  show "wf (measure (\<lambda>(diff, q, fired). length q))"
    by simp
next
  fix diff :: int and q :: "timer list" and fired :: "(nat \<times> int) list"
  assume "q \<noteq> []"
  then have "heap_front q \<in> set q"
    by (induction q rule: heap_front.induct) auto
  moreover from \<open>q \<noteq> []\<close> have "0 < length q"
    by simp
  ultimately
  show "((diff, pop_heap q, fired @ [(callback_id (heap_front q), time (heap_front q))]),
         (diff, q, fired)) \<in> measure (\<lambda>(diff, q, fired). length q)"
    by (simp add: pop_heap_def length_remove1)
qed

declare fire_timers.simps [simp del]

text \<open>
  \<^verbatim>\<open>IOManager::UpdateTimer(event_sz, prev_time)\<close>, with \<open>now\<close> what
  \<^verbatim>\<open>detail::GetCurrentTimeInMS()\<close> returns (a \<^verbatim>\<open>uint64_t\<close>).  In the branch for a non-empty
  batch the source stores that value in \<^verbatim>\<open>int ret\<close>, computes
  \<^verbatim>\<open>static_cast<int>( ret - prev_time )\<close> in \<^verbatim>\<open>uint64_t\<close> arithmetic, and returns \<^verbatim>\<open>ret\<close>
  converted back to \<^verbatim>\<open>uint64_t\<close>.  With an empty queue control reaches the end of the
  function without a \<^verbatim>\<open>return\<close>.
\<close>

datatype timer_update =
  NoReturnStatement
  | TimerUpdate (new_baseline: "64 word") (queue_after: "timer list")
      (timers_fired: "(nat \<times> int) list")

definition UpdateTimer :: "nat \<Rightarrow> 64 word \<Rightarrow> 64 word \<Rightarrow> timer list \<Rightarrow> timer_update" where
  "UpdateTimer event_sz prev_time now q =
     (if q \<noteq> [] then
        (if event_sz = 0 then
           (case fire_timers (time (heap_front q)) q [] of
              (q1, fired) \<Rightarrow> TimerUpdate now q1 fired)
         else
           let ret = (ucast now :: 32 word);
               diff = (ucast ((scast ret :: 64 word) - prev_time) :: 32 word)
           in TimerUpdate (scast ret) (map (\<lambda>t. t\<lparr>time := time t - sint diff\<rparr>) q) [])
      else NoReturnStatement)"

chapter \<open>Properties of the model\<close>

section \<open>Buffer: \<^verbatim>\<open>Read\<close> and \<^verbatim>\<open>Inject\<close>\<close>

lemma Read_leaves_size: "fst (snd (Read b n)) = n"
  by (simp add: Read_def Let_def)

lemma Read_pointer: "fst (Read b n) = read_ptr b"
  by (simp add: Read_def Let_def)

lemma Read_consumes:
  "buffer_ok b \<Longrightarrow>
   readable_size (snd (snd (Read b n))) = readable_size b - min n (readable_size b)"
  by (auto simp: Read_def Let_def RewindBuffer_def readable_size_def buffer_ok_def)

text \<open>
  C4.  \<^verbatim>\<open>Buffer::Read\<close> computes \<open>min(*size, readable_size)\<close>, returns the old read position and
  advances \<^verbatim>\<open>read_ptr_\<close> (rewinding a drained buffer), but it never stores the consumed
  amount through \<^verbatim>\<open>size\<close>.  On a buffer with two readable bytes and a request of five,
  two bytes are consumed and \<^verbatim>\<open>*size\<close> is still five.
\<close>

theorem Read_size_not_written_back:
  "Read \<lparr>mem = [1, 2, 3, 4], read_ptr = 1, write_ptr = 3, capacity = 4, is_fixed = False\<rparr> 5
   = (1, 5, \<lparr>mem = [1, 2, 3, 4], read_ptr = 0, write_ptr = 0, capacity = 4, is_fixed = False\<rparr>)"
  by (simp add: Read_def Let_def RewindBuffer_def readable_size_def)

lemma append_in_place:
  assumes "buffer_ok b" "length src = writable_size b"
  shows "append_at_write_ptr b src =
           Returned (True, b\<lparr>mem := memcpy_at (mem b) (write_ptr b) src, write_ptr := capacity b\<rparr>)"
  using assms by (simp add: append_at_write_ptr_def Let_def writable_size_def buffer_ok_def)

lemma readable_bytes_append:
  assumes "buffer_ok b" "length src = writable_size b"
  shows "readable_bytes (b\<lparr>mem := memcpy_at (mem b) (write_ptr b) src, write_ptr := capacity b\<rparr>)
         = readable_bytes b @ src"
  using assms
  by (auto simp: readable_bytes_def readable_size_def memcpy_at_def writable_size_def buffer_ok_def
      drop_take)

lemma append_in_place_ok:
  assumes "buffer_ok b" "length src = writable_size b"
  shows "buffer_ok (b\<lparr>mem := memcpy_at (mem b) (write_ptr b) src, write_ptr := capacity b\<rparr>)"
  using assms by (auto simp: buffer_ok_def memcpy_at_def writable_size_def)

lemma Grow_props:
  assumes "buffer_ok b" "0 < n"
  shows "buffer_ok (Grow b n)" "capacity (Grow b n) = readable_size b + n"
    "read_ptr (Grow b n) = 0" "write_ptr (Grow b n) = readable_size b"
    "readable_bytes (Grow b n) = readable_bytes b"
    "writable_size (Grow b n) = n" "is_fixed (Grow b n) = is_fixed b"
  using assms
  by (auto simp: Grow_def Let_def readable_bytes_def readable_size_def writable_size_def buffer_ok_def)


text \<open>
  C6 (as amended).  On a well-formed buffer, \<^verbatim>\<open>Inject\<close> of \<open>n = length src\<close> bytes
  \<^item> returns false and leaves the buffer alone when the buffer is fixed and \<open>n\<close> exceeds the
    writable size;
  \<^item> when \<open>n\<close> exceeds the writable size of a growable buffer, reallocates to a capacity of
    \<open>readable_size + n\<close> (the consumed prefix and the unused tail are dropped, so this is
    not the old capacity plus \<open>n\<close>), appends exactly the \<open>n\<close> bytes and returns true with
    \<open>write_ptr = capacity\<close>;
  \<^item> when \<open>n\<close> equals the writable size, appends the \<open>n\<close> bytes in place and returns
    true with \<open>write_ptr = capacity\<close>;
  \<^item> when \<open>n\<close> is smaller than the writable size, fails its closing assertion.
  So it returns false only for a fixed buffer with \<open>n\<close> above the writable size, and
  whenever it returns true the readable bytes are the old ones followed by \<open>src\<close>.
\<close>

theorem Inject_behaviour:
  assumes ok: "buffer_ok b"
  shows "(writable_size b < length src \<and> is_fixed b \<longrightarrow> Inject b src = Returned (False, b))
    \<and> (writable_size b < length src \<and> \<not> is_fixed b \<longrightarrow>
         (\<exists>b'. Inject b src = Returned (True, b') \<and> buffer_ok b'
            \<and> capacity b' = readable_size b + length src
            \<and> read_ptr b' = 0 \<and> write_ptr b' = capacity b'
            \<and> readable_bytes b' = readable_bytes b @ src))
    \<and> (writable_size b = length src \<longrightarrow>
         (\<exists>b'. Inject b src = Returned (True, b') \<and> buffer_ok b'
            \<and> capacity b' = capacity b
            \<and> read_ptr b' = read_ptr b \<and> write_ptr b' = capacity b'
            \<and> readable_bytes b' = readable_bytes b @ src))
    \<and> (length src < writable_size b \<longrightarrow> Inject b src = Aborted)"
proof (intro conjI impI)
  assume "writable_size b < length src \<and> is_fixed b"
  then show "Inject b src = Returned (False, b)"
    by (simp add: Inject_def)
next
  assume a: "writable_size b < length src \<and> \<not> is_fixed b"
  then have pos: "0 < length src" by (cases src) auto
  let ?g = "Grow b (length src)"
  let ?b' = "?g\<lparr>mem := memcpy_at (mem ?g) (write_ptr ?g) src, write_ptr := capacity ?g\<rparr>"
  have g: "buffer_ok ?g" "length src = writable_size ?g"
    using Grow_props [OF ok pos] by simp_all
  have "Inject b src = Returned (True, ?b')"
    using a append_in_place [OF g] by (simp add: Inject_def)
  moreover have "readable_bytes ?b' = readable_bytes b @ src"
    using readable_bytes_append [OF g] Grow_props(5) [OF ok pos] by simp
  moreover have "buffer_ok ?b'"
    using append_in_place_ok [OF g] .
  moreover have "capacity ?b' = readable_size b + length src" "read_ptr ?b' = 0"
    "write_ptr ?b' = capacity ?b'"
    using Grow_props [OF ok pos] by simp_all
  ultimately show "\<exists>b'. Inject b src = Returned (True, b') \<and> buffer_ok b'
            \<and> capacity b' = readable_size b + length src
            \<and> read_ptr b' = 0 \<and> write_ptr b' = capacity b'
            \<and> readable_bytes b' = readable_bytes b @ src"
    by blast
next
  assume a: "writable_size b = length src"
  let ?b' = "b\<lparr>mem := memcpy_at (mem b) (write_ptr b) src, write_ptr := capacity b\<rparr>"
  have "Inject b src = Returned (True, ?b')"
    using a append_in_place [OF ok] by (simp add: Inject_def)
  moreover have "readable_bytes ?b' = readable_bytes b @ src"
    using readable_bytes_append [OF ok] a by simp
  moreover have "buffer_ok ?b'"
    using append_in_place_ok [OF ok] a by simp
  ultimately show "\<exists>b'. Inject b src = Returned (True, b') \<and> buffer_ok b'
            \<and> capacity b' = capacity b
            \<and> read_ptr b' = read_ptr b \<and> write_ptr b' = capacity b'
            \<and> readable_bytes b' = readable_bytes b @ src"
    by simp
next
  assume "length src < writable_size b"
  then show "Inject b src = Aborted"
    by (simp add: Inject_def append_at_write_ptr_def Let_def writable_size_def)
qed

lemmas buffer_eval = Inject_def append_at_write_ptr_def Grow_def Let_def writable_size_def
  readable_size_def readable_bytes_def memcpy_at_def buffer_ok_def

text \<open>
  C6 as stated fails: a growable buffer of capacity 4 whose first two bytes are consumed and
  whose tail is full needs growth to take 3 bytes; the new capacity is \<open>2 + 3 = 5\<close>, which
  is not the old capacity plus 3.
\<close>

theorem Inject_capacity_counterexample:
  "Inject \<lparr>mem = [1, 2, 3, 4], read_ptr = 2, write_ptr = 4, capacity = 4, is_fixed = False\<rparr> [7, 8, 9]
     = Returned (True, \<lparr>mem = [3, 4, 7, 8, 9], read_ptr = 0, write_ptr = 5, capacity = 5,
                          is_fixed = False\<rparr>)
   \<and> (5 :: nat) \<noteq> 4 + length [7 :: byte, 8, 9]"
  by (simp add: buffer_eval)

theorem Inject_behaviour_witness:
  "Inject \<lparr>mem = [1, 2, 3, 4], read_ptr = 2, write_ptr = 4, capacity = 4, is_fixed = True\<rparr> [7, 8, 9]
     = Returned (False, \<lparr>mem = [1, 2, 3, 4], read_ptr = 2, write_ptr = 4, capacity = 4, is_fixed = True\<rparr>)
   \<and> (\<exists>b'. Inject \<lparr>mem = [1, 2, 3, 4], read_ptr = 2, write_ptr = 4, capacity = 4,
                        is_fixed = False\<rparr> [7, 8, 9] = Returned (True, b')
           \<and> capacity b' = 5 \<and> write_ptr b' = capacity b' \<and> readable_bytes b' = [3, 4, 7, 8, 9])
   \<and> (\<exists>b'. Inject \<lparr>mem = [1, 2, 3, 4], read_ptr = 0, write_ptr = 2, capacity = 4,
                        is_fixed = True\<rparr> [7, 8] = Returned (True, b')
           \<and> capacity b' = 4 \<and> write_ptr b' = capacity b' \<and> readable_bytes b' = [1, 2, 7, 8])
   \<and> Inject \<lparr>mem = [1, 2, 3, 4], read_ptr = 0, write_ptr = 2, capacity = 4, is_fixed = False\<rparr> [7]
       = Aborted"
proof -
  let ?f = "\<lparr>mem = [1, 2, 3, 4 :: byte], read_ptr = 2, write_ptr = 4, capacity = 4, is_fixed = True\<rparr>"
  let ?g = "\<lparr>mem = [1, 2, 3, 4 :: byte], read_ptr = 2, write_ptr = 4, capacity = 4, is_fixed = False\<rparr>"
  let ?h = "\<lparr>mem = [1, 2, 3, 4 :: byte], read_ptr = 0, write_ptr = 2, capacity = 4, is_fixed = True\<rparr>"
  let ?i = "\<lparr>mem = [1, 2, 3, 4 :: byte], read_ptr = 0, write_ptr = 2, capacity = 4, is_fixed = False\<rparr>"
  have ok: "buffer_ok ?f" "buffer_ok ?g" "buffer_ok ?h" "buffer_ok ?i"
    by (simp_all add: buffer_ok_def)
  have rb: "readable_bytes ?g = [3, 4]" "readable_bytes ?h = [1, 2]"
    by (simp_all add: readable_bytes_def readable_size_def)
  show ?thesis
    using Inject_behaviour [OF ok(1), of "[7, 8, 9]"] Inject_behaviour [OF ok(2), of "[7, 8, 9]"]
      Inject_behaviour [OF ok(3), of "[7, 8]"] Inject_behaviour [OF ok(4), of "[7]"] rb
    by (simp add: writable_size_def readable_size_def) blast
qed

section \<open>Endpoint: \<^verbatim>\<open>strtol\<close> on decimal strings\<close>

lemma isdigit_not_isspace: "isdigit c \<Longrightarrow> \<not> isspace c"
  by (auto simp: isdigit_def isspace_def)

lemma isdigit_not_sign: "isdigit c \<Longrightarrow> c \<noteq> CHR ''-'' \<and> c \<noteq> CHR ''+'' \<and> c \<noteq> CHR ''.''"
  by (auto simp: isdigit_def)

lemma takeWhile_digits:
  assumes "list_all isdigit ds" "no_digit_ahead rest"
  shows "takeWhile isdigit (ds @ rest) = ds"
proof -
  have "takeWhile isdigit rest = []"
    using assms(2) by (cases rest) (auto simp: no_digit_ahead_def)
  moreover have "\<And>x. x \<in> set ds \<Longrightarrow> isdigit x"
    using assms(1) by (simp add: list_all_iff)
  ultimately show ?thesis by (simp add: takeWhile_append2)
qed

lemma strtol_digits:
  assumes "digits ds" "no_digit_ahead rest"
  shows "strtol (ds @ rest) =
           (if LONG_MAX < int (decimal_value ds) then (LONG_MAX, length ds, ERANGE)
            else (int (decimal_value ds), length ds, 0))"
proof -
  from assms(1) obtain c cs where ds: "ds = c # cs" and c: "isdigit c" and all: "list_all isdigit ds"
    by (cases ds) (auto simp: digits_def)
  have sp: "takeWhile isspace (ds @ rest) = []" "dropWhile isspace (ds @ rest) = ds @ rest"
    using ds isdigit_not_isspace [OF c] by simp_all
  have hd: "hd (ds @ rest) \<noteq> CHR ''-''" "hd (ds @ rest) \<noteq> CHR ''+''" "ds @ rest \<noteq> []"
    using ds isdigit_not_sign [OF c] by simp_all
  have tw: "takeWhile isdigit (ds @ rest) = ds"
    by (rule takeWhile_digits [OF all assms(2)])
  have nonneg: "\<not> int (decimal_value ds) < LONG_MIN"
    by (simp add: LONG_MIN_def)
  show ?thesis
    unfolding strtol_def sp using hd tw nonneg ds by (simp add: Let_def)
qed

lemma strtol_no_number:
  assumes "no_digit_ahead s" "s = [] \<or> (\<not> isspace (hd s) \<and> hd s \<noteq> CHR ''-'' \<and> hd s \<noteq> CHR ''+'')"
  shows "strtol s = (0, 0, 0)"
proof (cases s)
  case Nil
  then show ?thesis by (simp add: strtol_def)
next
  case (Cons c cs)
  with assms have "\<not> isdigit c" "\<not> isspace c" "c \<noteq> CHR ''-''" "c \<noteq> CHR ''+''"
    by (auto simp: no_digit_ahead_def)
  with Cons show ?thesis by (simp add: strtol_def Let_def)
qed

lemma decimal_digits: "digits (decimal n)"
proof (induction n rule: decimal.induct)
  case (1 n)
  have d: "isdigit (digit_char k)" if "k < 10" for k
    using that by (simp add: isdigit_def digit_char_def)
  show ?case
  proof (cases "n < 10")
    case True
    then show ?thesis using d [of n] by (subst decimal.simps) (simp add: digits_def)
  next
    case False
    with 1 have "digits (decimal (n div 10))" by simp
    moreover have "isdigit (digit_char (n mod 10))" by (rule d) simp
    ultimately show ?thesis using False by (subst decimal.simps) (simp add: digits_def)
  qed
qed

lemma decimal_value_snoc: "decimal_value (ds @ [c]) = 10 * decimal_value ds + digit_value c"
  by (simp add: decimal_value_def)

lemma decimal_value_decimal: "decimal_value (decimal n) = n"
proof (induction n rule: decimal.induct)
  case (1 n)
  have d: "digit_value (digit_char k) = k" if "k < 10" for k
    using that by (simp add: digit_value_def digit_char_def)
  show ?case
  proof (cases "n < 10")
    case True
    then show ?thesis using d [of n] by (subst decimal.simps) (simp add: decimal_value_def)
  next
    case False
    with 1 have "decimal_value (decimal (n div 10)) = n div 10" by simp
    moreover have "digit_value (digit_char (n mod 10)) = n mod 10" by (rule d) simp
    ultimately show ?thesis using False
      by (subst decimal.simps) (simp add: decimal_value_snoc)
  qed
qed

subsection \<open>Packing four octets into a word\<close>

lemma octet_take_bit:
  fixes w :: "32 word"
  assumes "w \<le> 255"
  shows "take_bit 8 w = w"
proof -
  have "w < 2 ^ 8" using assms by (simp add: word_less_nat_alt word_le_nat_alt)
  then have "w AND mask 8 = w" by (rule less_mask_eq)
  then show ?thesis by (simp add: take_bit_eq_mask)
qed

lemma ff_mask: "(0xff :: 32 word) = mask 8"
  by (simp add: mask_eq_exp_minus_1)

lemma pack_unpack:
  fixes w1 w2 w3 w4 :: "32 word"
  assumes "w1 \<le> 255" "w2 \<le> 255" "w3 \<le> 255" "w4 \<le> 255"
  defines "x \<equiv> w4 OR (push_bit 8 w3) OR (push_bit 16 w2) OR (push_bit 24 w1)"
  shows "x AND 0xff = w4" "drop_bit 8 x AND 0xff = w3" "drop_bit 16 x AND 0xff = w2"
    "drop_bit 24 x AND 0xff = w1"
proof -
  have t: "take_bit 8 w1 = w1" "take_bit 8 w2 = w2" "take_bit 8 w3 = w3" "take_bit 8 w4 = w4"
    using assms by (simp_all add: octet_take_bit)
  have b: "bit w n \<Longrightarrow> n < 8" if "take_bit 8 w = w" for w :: "32 word" and n
    using that by (metis bit_take_bit_iff)
  show "x AND 0xff = w4"
    unfolding ff_mask x_def
    by (rule bit_word_eqI) (auto simp: bit_simps dest: b [OF t(1)] b [OF t(2)] b [OF t(3)] b [OF t(4)])
  show "drop_bit 8 x AND 0xff = w3"
    unfolding ff_mask x_def
    by (rule bit_word_eqI) (auto simp: bit_simps dest: b [OF t(1)] b [OF t(2)] b [OF t(3)] b [OF t(4)])
  show "drop_bit 16 x AND 0xff = w2"
    unfolding ff_mask x_def
    by (rule bit_word_eqI) (auto simp: bit_simps dest: b [OF t(1)] b [OF t(2)] b [OF t(3)] b [OF t(4)])
  show "drop_bit 24 x AND 0xff = w1"
    unfolding ff_mask x_def
    by (rule bit_word_eqI) (auto simp: bit_simps dest: b [OF t(1)] b [OF t(2)] b [OF t(3)] b [OF t(4)])
qed

lemma octet_word:
  assumes "v \<le> 255"
  shows "(word_of_nat v :: 32 word) \<le> 255" "sint (word_of_nat v :: 32 word) = int v"
proof -
  have u: "unat (word_of_nat v :: 32 word) = v"
    using assms by (simp add: unat_of_nat)
  then show "(word_of_nat v :: 32 word) \<le> 255" using assms by (simp add: word_le_nat_alt)
  show "sint (word_of_nat v :: 32 word) = int v"
    using assms by (simp add: signed_of_nat signed_take_bit_int_eq_self)
qed

section \<open>Endpoint: parsing strings of decimal components\<close>

lemma PARSE_digits:
  assumes "drop len buf = ds @ rest" "digits ds" "no_digit_ahead rest" "decimal_value ds < 2 ^ 32"
  shows "PARSE buf len =
           (if 255 < decimal_value ds then None
            else Some (word_of_nat (decimal_value ds), len + length ds))"
proof -
  let ?v = "decimal_value ds"
  have small: "\<not> LONG_MAX < int ?v"
    using assms(4) by (simp add: LONG_MAX_def)
  have s: "strtol (drop len buf) = (int ?v, length ds, 0)"
    using strtol_digits [OF assms(2,3)] small assms(1) by simp
  have u: "unat (word_of_nat ?v :: 32 word) = ?v"
    using assms(4) by (simp add: unat_of_nat)
  have "(255 < (word_of_nat ?v :: 32 word)) = (255 < ?v)"
    using u by (simp add: word_less_nat_alt)
  then show ?thesis
    by (simp add: PARSE_def s)
qed

lemma PARSE_no_number:
  assumes "drop len buf = rest" "no_digit_ahead rest"
    "rest = [] \<or> (\<not> isspace (hd rest) \<and> hd rest \<noteq> CHR ''-'' \<and> hd rest \<noteq> CHR ''+'')"
  shows "PARSE buf len = Some (0, len)"
  using strtol_no_number [OF assms(2,3)] assms(1) by (simp add: PARSE_def)

lemma CHECK_dot:
  assumes "drop p buf = CHR ''.'' # rest"
  shows "CHECK buf p = Some (p + 1)"
proof -
  have "p < length buf" using assms by (cases "p < length buf") auto
  moreover have "buf ! p = CHR ''.''"
    using assms calculation by (metis nth_via_drop)
  ultimately show ?thesis by (simp add: CHECK_def)
qed

lemma CHECK_no_dot:
  assumes "drop p buf = rest" "rest = [] \<or> hd rest \<noteq> CHR ''.''"
  shows "CHECK buf p = None"
proof (cases "p < length buf")
  case True
  then have "hd (drop p buf) = buf ! p" by (simp add: hd_drop_conv_nth)
  with assms True show ?thesis by (auto simp: CHECK_def)
next
  case False
  then show ?thesis by (simp add: CHECK_def)
qed


lemma drop_past: "drop p buf = ds @ r \<Longrightarrow> drop (p + length ds) buf = r"
  by (metis add.commute append_eq_conv_conj drop_drop)

lemma drop_past_char: "drop p buf = c # r \<Longrightarrow> drop (p + 1) buf = r"
  using drop_past [of p buf "[c]" r] by simp

lemma no_digit_ahead_dot: "no_digit_ahead (CHR ''.'' # xs)"
  by (simp add: no_digit_ahead_def isdigit_def)

lemma StringToIpv4_dotted:
  assumes d: "digits d1" "digits d2" "digits d3" "digits d4" and r: "no_digit_ahead rest"
    and v: "decimal_value d1 < 2 ^ 32" "decimal_value d2 < 2 ^ 32" "decimal_value d3 < 2 ^ 32"
      "decimal_value d4 < 2 ^ 32"
  shows "StringToIpv4 k ep (d1 @ ''.'' @ d2 @ ''.'' @ d3 @ ''.'' @ d4 @ rest) =
     (if 255 < decimal_value d1 \<or> 255 < decimal_value d2 \<or> 255 < decimal_value d3
         \<or> 255 < decimal_value d4
      then (- 1, ep\<lparr>port := k\<rparr>)
      else (int (length (d1 @ ''.'' @ d2 @ ''.'' @ d3 @ ''.'' @ d4)),
            ep\<lparr>ipv4 := word_of_nat (decimal_value d4) OR (push_bit 8 (word_of_nat (decimal_value d3)))
                       OR (push_bit 16 (word_of_nat (decimal_value d2)))
                       OR (push_bit 24 (word_of_nat (decimal_value d1)))\<rparr>))"
proof -
  define buf where "buf = d1 @ ''.'' @ d2 @ ''.'' @ d3 @ ''.'' @ d4 @ rest"
  let ?l1 = "length d1 + 1"
  let ?l2 = "?l1 + length d2 + 1"
  let ?l3 = "?l2 + length d3 + 1"
  have dr1: "drop 0 buf = d1 @ (CHR ''.'' # d2 @ ''.'' @ d3 @ ''.'' @ d4 @ rest)"
    by (simp add: buf_def)
  have dc1: "drop (0 + length d1) buf = CHR ''.'' # (d2 @ ''.'' @ d3 @ ''.'' @ d4 @ rest)"
    by (rule drop_past [OF dr1])
  have dr2: "drop ?l1 buf = d2 @ (CHR ''.'' # d3 @ ''.'' @ d4 @ rest)"
    using drop_past_char [OF dc1] by simp
  have dc2: "drop (?l1 + length d2) buf = CHR ''.'' # (d3 @ ''.'' @ d4 @ rest)"
    by (rule drop_past [OF dr2])
  have dr3: "drop ?l2 buf = d3 @ (CHR ''.'' # d4 @ rest)"
    using drop_past_char [OF dc2] by simp
  have dc3: "drop (?l2 + length d3) buf = CHR ''.'' # (d4 @ rest)"
    by (rule drop_past [OF dr3])
  have dr4: "drop ?l3 buf = d4 @ rest"
    using drop_past_char [OF dc3] by simp
  note p1 = PARSE_digits [OF dr1 d(1) no_digit_ahead_dot v(1), simplified]
  note c1 = CHECK_dot [OF dc1, simplified]
  note p2 = PARSE_digits [OF dr2 d(2) no_digit_ahead_dot v(2), simplified]
  note c2 = CHECK_dot [OF dc2, simplified]
  note p3 = PARSE_digits [OF dr3 d(3) no_digit_ahead_dot v(3), simplified]
  note c3 = CHECK_dot [OF dc3, simplified]
  note p4 = PARSE_digits [OF dr4 d(4) r v(4), simplified]
  have "StringToIpv4 k ep buf =
     (if 255 < decimal_value d1 \<or> 255 < decimal_value d2 \<or> 255 < decimal_value d3
         \<or> 255 < decimal_value d4
      then (- 1, ep\<lparr>port := k\<rparr>)
      else (int (length d1 + 1 + length d2 + 1 + length d3 + 1 + length d4),
            ep\<lparr>ipv4 := word_of_nat (decimal_value d4) OR (push_bit 8 (word_of_nat (decimal_value d3)))
                       OR (push_bit 16 (word_of_nat (decimal_value d2)))
                       OR (push_bit 24 (word_of_nat (decimal_value d1)))\<rparr>))"
    unfolding StringToIpv4_def Let_def
    by (simp add: p1 c1 p2 c2 p3 c3 p4)
  then show ?thesis
    by (simp add: buf_def)
qed

lemma StringToPort_digits:
  assumes "digits ds" "no_digit_ahead rest"
  shows "StringToPort k ep (ds @ rest) =
           (if 65535 < decimal_value ds then (- 1, ep\<lparr>port := k\<rparr>)
            else (int (length ds), ep\<lparr>port := word_of_nat (decimal_value ds)\<rparr>))"
  using strtol_digits [OF assms]
  by (auto simp: StringToPort_def LONG_MAX_def ERANGE_def)

lemma StringToPort_no_number:
  assumes "no_digit_ahead s"
    "s = [] \<or> (\<not> isspace (hd s) \<and> hd s \<noteq> CHR ''-'' \<and> hd s \<noteq> CHR ''+'')"
  shows "StringToPort k ep s = (0, ep\<lparr>port := 0\<rparr>)"
  using strtol_no_number [OF assms] by (simp add: StringToPort_def)

lemma StringToIpv4_fourth_no_number:
  assumes d: "digits d1" "digits d2" "digits d3" and r: "no_digit_ahead rest"
    "rest = [] \<or> (\<not> isspace (hd rest) \<and> hd rest \<noteq> CHR ''-'' \<and> hd rest \<noteq> CHR ''+'')"
    and v: "decimal_value d1 \<le> 255" "decimal_value d2 \<le> 255" "decimal_value d3 \<le> 255"
  shows "StringToIpv4 k ep (d1 @ ''.'' @ d2 @ ''.'' @ d3 @ ''.'' @ rest) =
      (int (length (d1 @ ''.'' @ d2 @ ''.'' @ d3 @ ''.'')),
       ep\<lparr>ipv4 := 0 OR (push_bit 8 (word_of_nat (decimal_value d3)))
                       OR (push_bit 16 (word_of_nat (decimal_value d2)))
                       OR (push_bit 24 (word_of_nat (decimal_value d1)))\<rparr>)"
proof -
  define buf where "buf = d1 @ ''.'' @ d2 @ ''.'' @ d3 @ ''.'' @ rest"
  let ?l1 = "length d1 + 1"
  let ?l2 = "?l1 + length d2 + 1"
  let ?l3 = "?l2 + length d3 + 1"
  have w: "decimal_value d1 < 2 ^ 32" "decimal_value d2 < 2 ^ 32" "decimal_value d3 < 2 ^ 32"
    using v by simp_all
  have dr1: "drop 0 buf = d1 @ (CHR ''.'' # d2 @ ''.'' @ d3 @ ''.'' @ rest)"
    by (simp add: buf_def)
  have dc1: "drop (0 + length d1) buf = CHR ''.'' # (d2 @ ''.'' @ d3 @ ''.'' @ rest)"
    by (rule drop_past [OF dr1])
  have dr2: "drop ?l1 buf = d2 @ (CHR ''.'' # d3 @ ''.'' @ rest)"
    using drop_past_char [OF dc1] by simp
  have dc2: "drop (?l1 + length d2) buf = CHR ''.'' # (d3 @ ''.'' @ rest)"
    by (rule drop_past [OF dr2])
  have dr3: "drop ?l2 buf = d3 @ (CHR ''.'' # rest)"
    using drop_past_char [OF dc2] by simp
  have dc3: "drop (?l2 + length d3) buf = CHR ''.'' # rest"
    by (rule drop_past [OF dr3])
  have dr4: "drop ?l3 buf = rest"
    using drop_past_char [OF dc3] by simp
  note p1 = PARSE_digits [OF dr1 d(1) no_digit_ahead_dot w(1), simplified]
  note c1 = CHECK_dot [OF dc1, simplified]
  note p2 = PARSE_digits [OF dr2 d(2) no_digit_ahead_dot w(2), simplified]
  note c2 = CHECK_dot [OF dc2, simplified]
  note p3 = PARSE_digits [OF dr3 d(3) no_digit_ahead_dot w(3), simplified]
  note c3 = CHECK_dot [OF dc3, simplified]
  note p4 = PARSE_no_number [OF dr4 r, simplified]
  have "StringToIpv4 k ep buf =
      (int (length d1 + 1 + length d2 + 1 + length d3 + 1),
       ep\<lparr>ipv4 := 0 OR (push_bit 8 (word_of_nat (decimal_value d3)))
                       OR (push_bit 16 (word_of_nat (decimal_value d2)))
                       OR (push_bit 24 (word_of_nat (decimal_value d1)))\<rparr>)"
    unfolding StringToIpv4_def Let_def
    using v by (simp add: p1 c1 p2 c2 p3 c3 p4)
  then show ?thesis
    by (simp add: buf_def)
qed

lemma sprintf_d_nat: "sprintf_d (int n) = decimal n"
  by (simp add: sprintf_d_def)

lemma Ipv4ToString_packed:
  assumes "a \<le> 255" "b \<le> 255" "c \<le> 255" "d \<le> 255"
  shows "Ipv4ToString (ep\<lparr>ipv4 := word_of_nat d OR (push_bit 8 (word_of_nat c))
                       OR (push_bit 16 (word_of_nat b)) OR (push_bit 24 (word_of_nat a))\<rparr>)
         = decimal a @ ''.'' @ decimal b @ ''.'' @ decimal c @ ''.'' @ decimal d"
proof -
  note w = octet_word(1) [OF assms(1)] octet_word(1) [OF assms(2)] octet_word(1) [OF assms(3)]
    octet_word(1) [OF assms(4)]
  note s = octet_word(2) [OF assms(1)] octet_word(2) [OF assms(2)] octet_word(2) [OF assms(3)]
    octet_word(2) [OF assms(4)]
  define x :: "32 word" where "x = word_of_nat d OR (push_bit 8 (word_of_nat c))
                       OR (push_bit 16 (word_of_nat b)) OR (push_bit 24 (word_of_nat a))"
  have u: "x AND 0xff = word_of_nat d" "drop_bit 8 x AND 0xff = word_of_nat c"
    "drop_bit 16 x AND 0xff = word_of_nat b" "drop_bit 24 x AND 0xff = word_of_nat a"
    unfolding x_def by (rule pack_unpack [OF w])+
  have "Ipv4ToString (ep\<lparr>ipv4 := x\<rparr>)
         = decimal a @ ''.'' @ decimal b @ ''.'' @ decimal c @ ''.'' @ decimal d"
    unfolding Ipv4ToString_def Let_def
    by (simp add: u s sprintf_d_nat)
  then show ?thesis
    unfolding x_def .
qed

lemma PortToString_port:
  assumes "p \<le> 65535"
  shows "PortToString (ep\<lparr>port := word_of_nat p\<rparr>) = decimal p"
proof -
  have "sint (word_of_nat p :: 32 word) = int p"
    using assms by (simp add: signed_of_nat signed_take_bit_int_eq_self)
  then show ?thesis by (simp add: PortToString_def sprintf_d_nat)
qed

section \<open>Endpoint: a failed address parse\<close>

lemma StringToIpv4_cases:
  "StringToIpv4 k ep buf = (- 1, ep\<lparr>port := k\<rparr>) \<or> 0 \<le> fst (StringToIpv4 k ep buf)"
  by (simp add: StringToIpv4_def Let_def split: option.splits prod.splits)

text \<open>
  C10.  Whenever \<^verbatim>\<open>StringToIpv4\<close> fails (returns \<open>-1\<close>), the endpoint after the call is the
  endpoint before it with only the port replaced by \<^verbatim>\<open>kEndpointError\<close>: the stored address
  is unchanged, and the failure is recorded in the port field alone.
\<close>

theorem StringToIpv4_failure_keeps_ipv4:
  assumes "fst (StringToIpv4 k ep buf) = - 1"
  shows "snd (StringToIpv4 k ep buf) = ep\<lparr>port := k\<rparr>
         \<and> ipv4 (snd (StringToIpv4 k ep buf)) = ipv4 ep
         \<and> port (snd (StringToIpv4 k ep buf)) = k"
proof -
  from StringToIpv4_cases [of k ep buf] assms
  have "StringToIpv4 k ep buf = (- 1, ep\<lparr>port := k\<rparr>)"
    by auto
  then show ?thesis by simp
qed

lemmas endpoint_eval =
  StringToIpv4_def StringToPort_def PARSE_def CHECK_def strtol_def isspace_def isdigit_def
  decimal_value_def digit_value_def LONG_MAX_def LONG_MIN_def ERANGE_def

theorem StringToIpv4_failure_keeps_ipv4_witness:
  "fst (StringToIpv4 65536 \<lparr>ipv4 = 0x7f000001, port = 80\<rparr> ''127.0.x.1'') = - 1
   \<and> snd (StringToIpv4 65536 \<lparr>ipv4 = 0x7f000001, port = 80\<rparr> ''300.1.1.1'')
       = \<lparr>ipv4 = 0x7f000001, port = 65536\<rparr>"
proof -
  have f: "fst (StringToIpv4 65536 \<lparr>ipv4 = 0x7f000001, port = 80\<rparr> ''300.1.1.1'') = - 1"
    by (simp add: endpoint_eval)
  have g: "fst (StringToIpv4 65536 \<lparr>ipv4 = 0x7f000001, port = 80\<rparr> ''127.0.x.1'') = - 1"
    by (simp add: endpoint_eval)
  from StringToIpv4_failure_keeps_ipv4 [OF f] g show ?thesis by simp
qed

section \<open>Endpoint: what parsing rejects\<close>

text \<open>
  What the range tests do.  For an address string \<open>d1.d2.d3.d4\<close> of non-empty decimal digit
  strings (each value below \<open>2^32\<close>) that is not followed by a further digit,
  \<^verbatim>\<open>StringToIpv4\<close> fails (port set to \<^verbatim>\<open>kEndpointError\<close>, result \<open>-1\<close>) when an octet exceeds
  255 and otherwise returns the length consumed and leaves the port alone.  For a port
  string of decimal digits, \<^verbatim>\<open>StringToPort\<close> fails in the same way when the value exceeds
  65535 and otherwise stores the value.  Where \<^verbatim>\<open>strtol\<close> converts nothing it yields 0,
  which passes every test the code makes: a port string that does not start with a number
  gives port 0 with result 0, and a fourth address component that is not a number gives a
  fourth octet of 0.
\<close>

lemma endpoint_parsing_range_tests:
  assumes d: "digits d1" "digits d2" "digits d3" "digits d4" "digits ds"
    and r: "no_digit_ahead rest"
    and v: "decimal_value d1 < 2 ^ 32" "decimal_value d2 < 2 ^ 32" "decimal_value d3 < 2 ^ 32"
      "decimal_value d4 < 2 ^ 32"
  shows "(255 < decimal_value d1 \<or> 255 < decimal_value d2 \<or> 255 < decimal_value d3
            \<or> 255 < decimal_value d4 \<longrightarrow>
          StringToIpv4 k ep (d1 @ ''.'' @ d2 @ ''.'' @ d3 @ ''.'' @ d4 @ rest)
            = (- 1, ep\<lparr>port := k\<rparr>))
       \<and> (decimal_value d1 \<le> 255 \<and> decimal_value d2 \<le> 255 \<and> decimal_value d3 \<le> 255
            \<and> decimal_value d4 \<le> 255 \<longrightarrow>
          fst (StringToIpv4 k ep (d1 @ ''.'' @ d2 @ ''.'' @ d3 @ ''.'' @ d4 @ rest))
            = int (length (d1 @ ''.'' @ d2 @ ''.'' @ d3 @ ''.'' @ d4))
          \<and> port (snd (StringToIpv4 k ep (d1 @ ''.'' @ d2 @ ''.'' @ d3 @ ''.'' @ d4 @ rest)))
            = port ep)
       \<and> (65535 < decimal_value ds \<longrightarrow>
          StringToPort k ep (ds @ rest) = (- 1, ep\<lparr>port := k\<rparr>))
       \<and> (decimal_value ds \<le> 65535 \<longrightarrow>
          StringToPort k ep (ds @ rest)
            = (int (length ds), ep\<lparr>port := word_of_nat (decimal_value ds)\<rparr>))
       \<and> (not_a_number x \<longrightarrow> StringToPort k ep x = (0, ep\<lparr>port := 0\<rparr>))
       \<and> (not_a_number x \<and> decimal_value d1 \<le> 255 \<and> decimal_value d2 \<le> 255
            \<and> decimal_value d3 \<le> 255 \<longrightarrow>
          fst (StringToIpv4 k ep (d1 @ ''.'' @ d2 @ ''.'' @ d3 @ ''.'' @ x))
            = int (length (d1 @ ''.'' @ d2 @ ''.'' @ d3 @ ''.'')))"
proof (intro conjI impI)
  note a = StringToIpv4_dotted [OF d(1-4) r v, of k ep]
  note b = StringToPort_digits [OF d(5) r, of k ep]
  {
    assume "255 < decimal_value d1 \<or> 255 < decimal_value d2 \<or> 255 < decimal_value d3
            \<or> 255 < decimal_value d4"
    then show "StringToIpv4 k ep (d1 @ ''.'' @ d2 @ ''.'' @ d3 @ ''.'' @ d4 @ rest)
            = (- 1, ep\<lparr>port := k\<rparr>)"
      by (simp only: a if_True)
  }
  {
    assume "decimal_value d1 \<le> 255 \<and> decimal_value d2 \<le> 255 \<and> decimal_value d3 \<le> 255
            \<and> decimal_value d4 \<le> 255"
    then have n: "\<not> (255 < decimal_value d1 \<or> 255 < decimal_value d2 \<or> 255 < decimal_value d3
            \<or> 255 < decimal_value d4)"
      by auto
    show "fst (StringToIpv4 k ep (d1 @ ''.'' @ d2 @ ''.'' @ d3 @ ''.'' @ d4 @ rest))
            = int (length (d1 @ ''.'' @ d2 @ ''.'' @ d3 @ ''.'' @ d4))"
      by (simp only: a n if_False fst_conv)
    show "port (snd (StringToIpv4 k ep (d1 @ ''.'' @ d2 @ ''.'' @ d3 @ ''.'' @ d4 @ rest)))
            = port ep"
      by (simp only: a n if_False snd_conv) simp
  }
  {
    assume "65535 < decimal_value ds"
    then show "StringToPort k ep (ds @ rest) = (- 1, ep\<lparr>port := k\<rparr>)"
      by (simp add: b)
  }
  {
    assume "decimal_value ds \<le> 65535"
    then show "StringToPort k ep (ds @ rest)
            = (int (length ds), ep\<lparr>port := word_of_nat (decimal_value ds)\<rparr>)"
      by (simp add: b)
  }
  {
    assume "not_a_number x"
    then show "StringToPort k ep x = (0, ep\<lparr>port := 0\<rparr>)"
      using StringToPort_no_number [of x k ep] by (simp add: not_a_number_def)
  }
  {
    assume x: "not_a_number x \<and> decimal_value d1 \<le> 255 \<and> decimal_value d2 \<le> 255
            \<and> decimal_value d3 \<le> 255"
    then have "no_digit_ahead x"
      "x = [] \<or> (\<not> isspace (hd x) \<and> hd x \<noteq> CHR ''-'' \<and> hd x \<noteq> CHR ''+'')"
      by (simp_all add: not_a_number_def)
    from StringToIpv4_fourth_no_number [OF d(1-3) this, of k ep] x
    show "fst (StringToIpv4 k ep (d1 @ ''.'' @ d2 @ ''.'' @ d3 @ ''.'' @ x))
            = int (length (d1 @ ''.'' @ d2 @ ''.'' @ d3 @ ''.''))"
      by simp
  }
qed


lemma digits_eval:
  "digits ''300''" "digits ''1''" "digits ''10''" "digits ''0''" "digits ''65536''"
  "digits ''8080''" "digits ''2''" "digits ''3''"
  "decimal_value ''300'' = 300" "decimal_value ''1'' = 1" "decimal_value ''10'' = 10"
  "decimal_value ''0'' = 0" "decimal_value ''65536'' = 65536" "decimal_value ''8080'' = 8080"
  "decimal_value ''2'' = 2" "decimal_value ''3'' = 3"
  "no_digit_ahead '':80''" "not_a_number ''http''"
  by (simp_all add: digits_def isdigit_def decimal_value_def digit_value_def no_digit_ahead_def
      not_a_number_def isspace_def)

lemma endpoint_parsing_range_tests_example:
  "StringToIpv4 65536 \<lparr>ipv4 = 0, port = 80\<rparr> ''300.1.1.1:80''
     = (- 1, \<lparr>ipv4 = 0, port = 65536\<rparr>)
   \<and> fst (StringToIpv4 65536 \<lparr>ipv4 = 0, port = 80\<rparr> ''10.0.0.1:80'') = 8
   \<and> StringToPort 65536 \<lparr>ipv4 = 0, port = 80\<rparr> ''65536:80'' = (- 1, \<lparr>ipv4 = 0, port = 65536\<rparr>)
   \<and> StringToPort 65536 \<lparr>ipv4 = 0, port = 80\<rparr> ''8080:80'' = (4, \<lparr>ipv4 = 0, port = 8080\<rparr>)
   \<and> StringToPort 65536 \<lparr>ipv4 = 0, port = 80\<rparr> ''http'' = (0, \<lparr>ipv4 = 0, port = 0\<rparr>)
   \<and> fst (StringToIpv4 65536 \<lparr>ipv4 = 0, port = 80\<rparr> ''1.2.3.http'') = 6"
proof -
  note bad = endpoint_parsing_range_tests [of "''300''" "''1''" "''1''" "''1''" "''65536''" "'':80''"
      65536 "\<lparr>ipv4 = 0, port = 80\<rparr>" "''http''"]
  note good = endpoint_parsing_range_tests [of "''10''" "''0''" "''0''" "''1''" "''8080''" "'':80''"
      65536 "\<lparr>ipv4 = 0, port = 80\<rparr>" "''http''"]
  note junk = endpoint_parsing_range_tests [of "''1''" "''2''" "''3''" "''1''" "''8080''" "'':80''"
      65536 "\<lparr>ipv4 = 0, port = 80\<rparr>" "''http''"]
  show ?thesis
    using bad good junk by (simp add: digits_eval)
qed

text \<open>
  C8.  Neither parser tests that \<^verbatim>\<open>strtol\<close> converted anything.  \<^verbatim>\<open>StringToIpv4\<close> accepts
  \<^verbatim>\<open>1.2.3.x\<close>, whose fourth component is not a number: it returns 6, stores the address
  \<open>1.2.3.0\<close> and leaves the port alone.  \<^verbatim>\<open>StringToPort\<close> accepts \<^verbatim>\<open>http\<close>: it returns 0 and
  stores port 0.  The same letter in the second component, \<^verbatim>\<open>1.x.3.4\<close>, is rejected, by the
  test for the separating dot: result \<open>-1\<close>, port set to \<^verbatim>\<open>kEndpointError\<close>.
\<close>

theorem endpoint_parsing_accepts_non_numeric:
  "StringToIpv4 65536 \<lparr>ipv4 = 0, port = 80\<rparr> ''1.2.3.x'' = (6, \<lparr>ipv4 = 0x01020300, port = 80\<rparr>)
   \<and> StringToPort 65536 \<lparr>ipv4 = 0, port = 80\<rparr> ''http'' = (0, \<lparr>ipv4 = 0, port = 0\<rparr>)
   \<and> StringToIpv4 65536 \<lparr>ipv4 = 0, port = 80\<rparr> ''1.x.3.4'' = (- 1, \<lparr>ipv4 = 0, port = 65536\<rparr>)"
  by (simp add: endpoint_eval)

section \<open>Endpoint: parsing what the formatter writes\<close>

text \<open>
  C9 (as amended).  For octets \<open>a, b, c, d \<le> 255\<close> and a port \<open>p \<le> 65535\<close>, written the way
  \<^verbatim>\<open>sprintf("%d")\<close> writes them (decimal, no sign, no leading zero, no white space):
  \<^verbatim>\<open>StringToIpv4\<close> accepts the whole dotted-quad string and \<^verbatim>\<open>Ipv4ToString\<close> then
  gives the same string back; \<^verbatim>\<open>StringToPort\<close> accepts the whole port string and
  \<^verbatim>\<open>PortToString\<close> gives it back.
\<close>

theorem endpoint_round_trip:
  assumes "a \<le> 255" "b \<le> 255" "c \<le> 255" "d \<le> 255" "p \<le> 65535"
  shows "fst (StringToIpv4 k ep (decimal a @ ''.'' @ decimal b @ ''.'' @ decimal c @ ''.'' @ decimal d))
           = int (length (decimal a @ ''.'' @ decimal b @ ''.'' @ decimal c @ ''.'' @ decimal d))
       \<and> Ipv4ToString
           (snd (StringToIpv4 k ep (decimal a @ ''.'' @ decimal b @ ''.'' @ decimal c @ ''.'' @ decimal d)))
           = decimal a @ ''.'' @ decimal b @ ''.'' @ decimal c @ ''.'' @ decimal d
       \<and> fst (StringToPort k ep (decimal p)) = int (length (decimal p))
       \<and> PortToString (snd (StringToPort k ep (decimal p))) = decimal p"
proof -
  have nd: "no_digit_ahead []" by (simp add: no_digit_ahead_def)
  have v: "decimal_value (decimal a) < 2 ^ 32" "decimal_value (decimal b) < 2 ^ 32"
    "decimal_value (decimal c) < 2 ^ 32" "decimal_value (decimal d) < 2 ^ 32"
    using assms by (simp_all add: decimal_value_decimal)
  have ip: "StringToIpv4 k ep (decimal a @ ''.'' @ decimal b @ ''.'' @ decimal c @ ''.'' @ decimal d)
      = (int (length (decimal a @ ''.'' @ decimal b @ ''.'' @ decimal c @ ''.'' @ decimal d)),
         ep\<lparr>ipv4 := word_of_nat d OR (push_bit 8 (word_of_nat c))
                       OR (push_bit 16 (word_of_nat b)) OR (push_bit 24 (word_of_nat a))\<rparr>)"
    using StringToIpv4_dotted [where k = k and ep = ep,
        OF decimal_digits decimal_digits decimal_digits decimal_digits nd v] assms
    by (simp add: decimal_value_decimal)
  have pt: "StringToPort k ep (decimal p) = (int (length (decimal p)), ep\<lparr>port := word_of_nat p\<rparr>)"
    using StringToPort_digits [where k = k and ep = ep and ds = "decimal p", OF decimal_digits nd]
      assms
    by (simp add: decimal_value_decimal)
  show ?thesis
    unfolding ip pt fst_conv snd_conv
    using Ipv4ToString_packed [OF assms(1-4), of ep] PortToString_port [OF assms(5), of ep]
    by simp
qed

lemma decimal_eval:
  "decimal 192 = ''192''" "decimal 168 = ''168''" "decimal 0 = ''0''" "decimal 254 = ''254''"
  "decimal 8080 = ''8080''"
  by (simp_all add: decimal.simps digit_char_def char_of_def bit_iff_odd)

theorem endpoint_round_trip_witness:
  "fst (StringToIpv4 65536 \<lparr>ipv4 = 0, port = 80\<rparr> ''192.168.0.254'') = 13
   \<and> Ipv4ToString (snd (StringToIpv4 65536 \<lparr>ipv4 = 0, port = 80\<rparr> ''192.168.0.254''))
       = ''192.168.0.254''
   \<and> fst (StringToPort 65536 \<lparr>ipv4 = 0, port = 80\<rparr> ''8080'') = 4
   \<and> PortToString (snd (StringToPort 65536 \<lparr>ipv4 = 0, port = 80\<rparr> ''8080'')) = ''8080''"
  using endpoint_round_trip [of 192 168 0 254 8080 65536 "\<lparr>ipv4 = 0, port = 80\<rparr>"]
  by (simp add: decimal_eval)

text \<open>
  C9 as stated fails for a dotted quad or a port written with a leading zero: the octets
  and the port are in range, and formatting gives a different string back.
\<close>

theorem endpoint_round_trip_counterexample:
  "Ipv4ToString (snd (StringToIpv4 65536 \<lparr>ipv4 = 0, port = 80\<rparr> ''010.0.0.1'')) = ''10.0.0.1''
   \<and> PortToString (snd (StringToPort 65536 \<lparr>ipv4 = 0, port = 80\<rparr> ''080'')) = ''80''"
  by (simp add: endpoint_eval Ipv4ToString_def PortToString_def sprintf_d_def decimal.simps
      digit_char_def char_of_def bit_iff_odd)

section \<open>\<^verbatim>\<open>Socket::DoRead\<close> and the \<open>can_read\<close> flag\<close>


lemma Inject_preserves_unless_ok:
  "Inject b src = Returned (False, b') \<Longrightarrow> b' = b"
  by (auto simp: Inject_def append_at_write_ptr_def Let_def split: if_splits)










text \<open>
  The loop does return: it ends at the first \<^verbatim>\<open>readv\<close> that fails with anything but
  \<^verbatim>\<open>EINTR\<close> or that returns 0, if not before.
\<close>

lemma DoRead_loop_returns:
  assumes "r \<in> set results" "ends_read_loop r"
  shows "DoRead_loop swap s n results \<noteq> None"
  using assms
proof (induction results arbitrary: s n)
  case Nil
  then show ?case by simp
next
  case (Cons a rs)
  show ?case
  proof (cases "DoRead_iteration swap s n a")
    case (ReadContinue s2 n2)
    then have "a \<noteq> r"
      using Cons.prems(2)
      by (auto simp: DoRead_iteration_def ends_read_loop_def Let_def
          split: readv_result.splits if_splits)
    with Cons.prems have "r \<in> set rs" by simp
    from Cons.IH [OF this Cons.prems(2)] ReadContinue show ?thesis by simp
  qed simp_all
qed

section \<open>\<^verbatim>\<open>Socket::OnWriteNotify\<close> and the write callback\<close>

lemma DoWrite_loop_frame:
  assumes "DoWrite_loop s results = Some (Returned (n, st, s2, rest))"
  shows "prev_write_size s2 = prev_write_size s \<and> user_write_callback s2 = user_write_callback s
         \<and> user_read_callback s2 = user_read_callback s \<and> notify_flag s2 = notify_flag s
         \<and> read_buffer s2 = read_buffer s"
  using assms
proof (induction s results rule: DoWrite_loop.induct)
  case (1 s)
  then show ?case by simp
next
  case (2 s sz errno rs)
  then show ?case
    by (auto simp: Let_def split: if_splits)
qed

lemma DoWrite_loop_error:
  assumes "DoWrite_loop s results = Some (Returned (n, st, s2, rest))" "st \<noteq> StateOK"
  shows "n = prev_write_size s \<and> write_buffer s2 = write_buffer s"
  using assms
proof (induction s results rule: DoWrite_loop.induct)
  case (1 s)
  then show ?case by simp
next
  case (2 s sz errno rs)
  then show ?case
    by (auto simp: Let_def split: if_splits)
qed

lemma readable_size_commit_read:
  "readable_size (commit_read b n) = readable_size b - n"
  by (auto simp: commit_read_def RewindBuffer_def readable_size_def)

lemma DoWrite_loop_consumes:
  assumes "DoWrite_loop s results = Some (Returned (n, StateOK, s2, rest))"
  shows "readable_size (write_buffer s2) = readable_size (write_buffer s) - n"
  using assms
proof (induction s results rule: DoWrite_loop.induct)
  case (1 s)
  then show ?case by simp
next
  case (2 s sz errno rs)
  then show ?case
    by (auto simp: Let_def readable_size_commit_read split: if_splits)
qed

lemma invocations_run_callback: "invocations (run_callback cb w) = invocations w"
  by (simp add: run_callback_def destroy_def set_deleted_def
      split: option.splits deleted_flag.splits)

text \<open>
  C3 (as amended).  \<^verbatim>\<open>OnWriteNotify\<close> on a live socket with a non-empty write buffer, where
  \<^verbatim>\<open>DoWrite\<close> returns \<open>write_sz\<close> and \<open>write_state\<close>:
  \<^item> no error, the write buffer empty afterwards, a write callback installed: exactly one
    invocation is added, of the write callback with \<open>prev_write_size + write_sz\<close> and OK;
  \<^item> no error and the write buffer still non-empty: no invocation is added,
    \<open>prev_write_size\<close> grows by \<open>write_sz\<close>, and the callback slot stays as it is;
  \<^item> an error, a write callback installed: exactly one invocation is added, of the write
    callback with \<open>prev_write_size\<close> and that error;
  \<^item> no write callback installed, and either no error with the buffer empty afterwards or
    an error: the assertion of \<^verbatim>\<open>DO_INVOKE\<close> fails and nothing is invoked.
\<close>

theorem OnWriteNotify_fires:
  assumes live: "alive w"
    and nonempty: "0 < readable_size (write_buffer (sock w))"
    and dw: "DoWrite ((sock w)\<lparr>can_write := True\<rparr>) (write_script w)
               = Some (Returned (write_sz, write_state, s2, rest))"
  shows "(write_state = StateOK \<and> readable_size (write_buffer s2) = 0
            \<and> user_write_callback (sock w) \<noteq> None \<longrightarrow>
          (\<exists>w'. OnWriteNotify w = Some (Returns w')
             \<and> invocations w' =
                 invocations w @ [WriteInvoked (prev_write_size (sock w) + write_sz) StateOK]))
       \<and> (write_state = StateOK \<and> readable_size (write_buffer s2) \<noteq> 0 \<longrightarrow>
          (\<exists>w'. OnWriteNotify w = Some (Returns w')
             \<and> invocations w' = invocations w
             \<and> prev_write_size (sock w') = prev_write_size (sock w) + write_sz
             \<and> user_write_callback (sock w') = user_write_callback (sock w)))
       \<and> (write_state \<noteq> StateOK \<and> user_write_callback (sock w) \<noteq> None \<longrightarrow>
          (\<exists>w'. OnWriteNotify w = Some (Returns w')
             \<and> invocations w' =
                 invocations w @ [WriteInvoked (prev_write_size (sock w)) write_state]))
       \<and> (write_state = StateOK \<and> readable_size (write_buffer s2) = 0
            \<and> user_write_callback (sock w) = None \<longrightarrow>
          OnWriteNotify w = Some Aborts)
       \<and> (write_state \<noteq> StateOK \<and> user_write_callback (sock w) = None \<longrightarrow>
          OnWriteNotify w = Some Aborts)"
proof -
  let ?s1 = "(sock w)\<lparr>can_write := True\<rparr>"
  have ne: "readable_size (write_buffer ?s1) \<noteq> 0" using nonempty by simp
  from dw nonempty have loop: "DoWrite_loop ?s1 (write_script w)
               = Some (Returned (write_sz, write_state, s2, rest))"
    by (simp add: DoWrite_def)
  from DoWrite_loop_frame [OF loop]
  have frame: "prev_write_size s2 = prev_write_size (sock w)"
    "user_write_callback s2 = user_write_callback (sock w)"
    by simp_all
  show ?thesis
  proof (intro conjI impI)
    assume a: "write_state = StateOK \<and> readable_size (write_buffer s2) = 0
            \<and> user_write_callback (sock w) \<noteq> None"
    then obtain cb where cb: "user_write_callback s2 = Some cb" using frame by auto
    show "\<exists>w'. OnWriteNotify w = Some (Returns w')
             \<and> invocations w' =
                 invocations w @ [WriteInvoked (prev_write_size (sock w) + write_sz) StateOK]"
      using live ne dw a cb frame
      by (simp add: OnWriteNotify_def Let_def DO_INVOKE_write_def invocations_run_callback)
  next
    assume a: "write_state = StateOK \<and> readable_size (write_buffer s2) \<noteq> 0"
    show "\<exists>w'. OnWriteNotify w = Some (Returns w')
             \<and> invocations w' = invocations w
             \<and> prev_write_size (sock w') = prev_write_size (sock w) + write_sz
             \<and> user_write_callback (sock w') = user_write_callback (sock w)"
      using live ne dw a frame
      by (simp add: OnWriteNotify_def Let_def)
  next
    assume a: "write_state \<noteq> StateOK \<and> user_write_callback (sock w) \<noteq> None"
    then obtain cb where cb: "user_write_callback s2 = Some cb" using frame by auto
    show "\<exists>w'. OnWriteNotify w = Some (Returns w')
             \<and> invocations w' =
                 invocations w @ [WriteInvoked (prev_write_size (sock w)) write_state]"
      using live ne dw a cb frame
      by (simp add: OnWriteNotify_def Let_def DO_INVOKE_write_def invocations_run_callback)
  next
    assume a: "write_state = StateOK \<and> readable_size (write_buffer s2) = 0
            \<and> user_write_callback (sock w) = None"
    show "OnWriteNotify w = Some Aborts"
      using live ne dw a frame
      by (simp add: OnWriteNotify_def Let_def DO_INVOKE_write_def)
  next
    assume a: "write_state \<noteq> StateOK \<and> user_write_callback (sock w) = None"
    show "OnWriteNotify w = Some Aborts"
      using live ne dw a frame
      by (simp add: OnWriteNotify_def Let_def DO_INVOKE_write_def)
  qed
qed

lemmas DoWrite_eval =
  OnWriteNotify_def DoWrite_def DO_INVOKE_write_def run_callback_def Let_def commit_read_def
  RewindBuffer_def readable_size_def EAGAIN_def EWOULDBLOCK_def EINTR_def
  example_writer_def example_socket_def example_buffer_def

theorem OnWriteNotify_fires_witness:
  "(\<exists>w'. OnWriteNotify (example_writer [WriteResult (- 1) 4, WriteResult 4 0]) = Some (Returns w')
      \<and> invocations w' = [WriteInvoked 14 StateOK])
   \<and> (\<exists>w'. OnWriteNotify (example_writer [WriteResult 3 0]) = Some (Returns w')
      \<and> invocations w' = [] \<and> prev_write_size (sock w') = 13
      \<and> user_write_callback (sock w') = Some (Callback False None None))
   \<and> (\<exists>w'. OnWriteNotify (example_writer [WriteResult (- 1) 104]) = Some (Returns w')
      \<and> invocations w' = [WriteInvoked 10 (StateError kSystem 104)])
   \<and> OnWriteNotify (without_write_callback (example_writer [WriteResult 4 0])) = Some Aborts
   \<and> OnWriteNotify (without_write_callback (example_writer [WriteResult (- 1) 104])) = Some Aborts"
proof -
  let ?buf = "\<lparr>mem = [1, 2, 3, 4 :: byte], read_ptr = 0, write_ptr = 4, capacity = 4, is_fixed = False\<rparr>"
  let ?s = "example_socket\<lparr>write_buffer := ?buf, prev_write_size := 10,
              user_write_callback := Some (Callback False None None)\<rparr>"
  have full: "DoWrite ((sock (example_writer [WriteResult (- 1) 4, WriteResult 4 0]))\<lparr>can_write := True\<rparr>)
                (write_script (example_writer [WriteResult (- 1) 4, WriteResult 4 0]))
              = Some (Returned (4, StateOK,
                  ?s\<lparr>can_write := True, write_buffer := ?buf\<lparr>read_ptr := 0, write_ptr := 0\<rparr>\<rparr>, []))"
    by (simp add: DoWrite_eval)
  have part: "DoWrite ((sock (example_writer [WriteResult 3 0]))\<lparr>can_write := True\<rparr>)
                (write_script (example_writer [WriteResult 3 0]))
              = Some (Returned (3, StateOK,
                  ?s\<lparr>can_write := False, write_buffer := ?buf\<lparr>read_ptr := 3\<rparr>\<rparr>, []))"
    by (simp add: DoWrite_eval)
  have err: "DoWrite ((sock (example_writer [WriteResult (- 1) 104]))\<lparr>can_write := True\<rparr>)
                (write_script (example_writer [WriteResult (- 1) 104]))
              = Some (Returned (10, StateError kSystem 104, ?s\<lparr>can_write := True\<rparr>, []))"
    by (simp add: DoWrite_eval)
  have live: "alive (example_writer r)"
    and ne: "0 < readable_size (write_buffer (sock (example_writer r)))" for r
    by (simp_all add: example_writer_def readable_size_def)
  let ?n = "?s\<lparr>user_write_callback := None\<rparr>"
  have full_n: "DoWrite ((sock (without_write_callback (example_writer [WriteResult 4 0])))
                  \<lparr>can_write := True\<rparr>)
                (write_script (without_write_callback (example_writer [WriteResult 4 0])))
              = Some (Returned (4, StateOK,
                  ?n\<lparr>can_write := True, write_buffer := ?buf\<lparr>read_ptr := 0, write_ptr := 0\<rparr>\<rparr>, []))"
    by (simp add: DoWrite_eval without_write_callback_def)
  have err_n: "DoWrite ((sock (without_write_callback (example_writer [WriteResult (- 1) 104])))
                  \<lparr>can_write := True\<rparr>)
                (write_script (without_write_callback (example_writer [WriteResult (- 1) 104])))
              = Some (Returned (10, StateError kSystem 104, ?n\<lparr>can_write := True\<rparr>, []))"
    by (simp add: DoWrite_eval without_write_callback_def)
  have live_n: "alive (without_write_callback (example_writer r))"
    and ne_n: "0 < readable_size (write_buffer (sock (without_write_callback (example_writer r))))"
    for r
    by (simp_all add: example_writer_def readable_size_def without_write_callback_def)
  show ?thesis
    using OnWriteNotify_fires [OF live ne full] OnWriteNotify_fires [OF live ne part]
      OnWriteNotify_fires [OF live ne err] OnWriteNotify_fires [OF live_n ne_n full_n]
      OnWriteNotify_fires [OF live_n ne_n err_n]
    by (simp add: example_writer_def readable_size_def without_write_callback_def)
qed

text \<open>
  C3 as stated fails where no write callback is installed.  Such a state is what the error
  case itself leaves behind: \<^verbatim>\<open>DoWrite\<close> fails, the callback is released and invoked with the
  error, and the four bytes stay queued; on the next invocation \<^verbatim>\<open>DoWrite\<close> fails again and
  \<^verbatim>\<open>DO_INVOKE\<close> aborts on the empty slot instead of firing a callback.
\<close>

theorem OnWriteNotify_fires_counterexample:
  "OnWriteNotify (example_writer [WriteResult (- 1) 104, WriteResult (- 1) 104])
     = Some (Returns ((example_writer [WriteResult (- 1) 104])
          \<lparr>sock := (sock (example_writer []))\<lparr>user_write_callback := None\<rparr>,
           invocations := [WriteInvoked 10 (StateError kSystem 104)]\<rparr>))
   \<and> 0 < readable_size (write_buffer (sock ((example_writer [WriteResult (- 1) 104])
          \<lparr>sock := (sock (example_writer []))\<lparr>user_write_callback := None\<rparr>,
           invocations := [WriteInvoked 10 (StateError kSystem 104)]\<rparr>)))
   \<and> OnWriteNotify ((example_writer [WriteResult (- 1) 104])
          \<lparr>sock := (sock (example_writer []))\<lparr>user_write_callback := None\<rparr>,
           invocations := [WriteInvoked 10 (StateError kSystem 104)]\<rparr>)
     = Some Aborts"
  by (simp add: DoWrite_eval)


section \<open>Dispatch and the \<open>deleted\<close> flag\<close>

lemmas Dispatch_eval =
  DispatchEvent_def DispatchEvent_hup_in_out_def DispatchEvent_in_out_def DispatchEvent_write_def
  OnReadNotify_def OnWriteNotify_def OnException_def DoRead_def
  InvokeClose_released_def InvokeClose_def InvokeData_def close_unless_deleted_def
  DO_INVOKE_read_def DO_INVOKE_write_def run_callback_def destroy_def
  install_deleted_flag_def set_deleted_def get_deleted_def Let_def
  EPOLLIN_def EPOLLOUT_def EPOLLERR_def EPOLLHUP_def
  example_closing_def example_socket_def example_buffer_def

lemma DoRead_iteration_frame:
  "DoRead_iteration swap s n r = ReadContinue s1 n1 \<Longrightarrow>
     sock_state s1 = sock_state s \<and> user_read_callback s1 = user_read_callback s
     \<and> user_write_callback s1 = user_write_callback s \<and> notify_flag s1 = notify_flag s"
  "DoRead_iteration swap s n r = ReadReturn n1 st s1 \<Longrightarrow>
     sock_state s1 = sock_state s \<and> user_read_callback s1 = user_read_callback s
     \<and> user_write_callback s1 = user_write_callback s \<and> notify_flag s1 = notify_flag s"
  by (auto simp: DoRead_iteration_def DoRead_sized_def Let_def
      split: readv_result.splits if_splits outcome.splits prod.splits)

lemma DoRead_loop_frame:
  assumes "DoRead_loop swap s n results = Some (Returned (n1, st, s1, rest))"
  shows "sock_state s1 = sock_state s \<and> user_read_callback s1 = user_read_callback s
     \<and> user_write_callback s1 = user_write_callback s \<and> notify_flag s1 = notify_flag s"
  using assms
proof (induction results arbitrary: s n)
  case Nil
  then show ?case by simp
next
  case (Cons r rs)
  show ?case
  proof (cases "DoRead_iteration swap s n r")
    case (ReadContinue s2 n2)
    with Cons.prems have "DoRead_loop swap s2 n2 rs = Some (Returned (n1, st, s1, rest))"
      by simp
    from Cons.IH [OF this] DoRead_iteration_frame(1) [OF ReadContinue] show ?thesis by simp
  next
    case (ReadReturn n2 st2 s2)
    with Cons.prems have "s2 = s1" by simp
    with DoRead_iteration_frame(2) [OF ReadReturn] show ?thesis by simp
  next
    case ReadAbort
    with Cons.prems show ?thesis by simp
  qed
qed

lemma DoRead_frame:
  assumes "DoRead swap s results = Some (Returned (n1, st, s1, rest))"
  shows "sock_state s1 = sock_state s \<and> user_read_callback s1 = user_read_callback s
     \<and> user_write_callback s1 = user_write_callback s \<and> notify_flag s1 = notify_flag s"
proof (cases "eof s")
  case True
  with assms show ?thesis by (simp add: DoRead_def)
next
  case False
  with assms DoRead_loop_frame show ?thesis by (simp add: DoRead_def)
qed

lemma OnException_deleting_read_callback:
  assumes "alive w" "st \<noteq> StateOK" "user_read_callback (sock w) = Some cb" "cb_destroys cb"
  shows "\<exists>w'. OnException st w = Returns w' \<and> \<not> alive w'
           \<and> invocations w' = invocations w @ [ReadInvoked 0 st]"
  using assms
  by (simp add: OnException_def install_deleted_flag_def set_deleted_def get_deleted_def Let_def
      DO_INVOKE_read_def run_callback_def destroy_def)

lemma DispatchEvent_deleting_read_callback:
  assumes live: "alive w" and st: "sock_state (sock w) \<noteq> CLOSING"
    and cb: "user_read_callback (sock w) = Some cb" "cb_destroys cb"
    and rd: "DoRead swap ((sock w)\<lparr>notify_flag := Some DispatchLoop_deleted, can_read := True\<rparr>)
               (readv_script w) = Some (Returned (n, rst, s2, rest))"
  shows "\<exists>w'. DispatchEvent swap (EPOLLIN OR EPOLLOUT) so_error w = Some (Returns w')
           \<and> \<not> alive w' \<and> invocations w' = invocations w @ [ReadInvoked n rst]"
proof -
  from DoRead_frame [OF rd] st cb
  have f: "sock_state s2 \<noteq> CLOSING" "user_read_callback s2 = Some cb"
    "notify_flag s2 = Some DispatchLoop_deleted"
    by simp_all
  show ?thesis
    using live cb rd f
    by (simp add: DispatchEvent_def DispatchEvent_hup_in_out_def DispatchEvent_in_out_def
        DispatchEvent_write_def OnReadNotify_def install_deleted_flag_def set_deleted_def
        Let_def DO_INVOKE_read_def run_callback_def destroy_def
        EPOLLIN_def EPOLLOUT_def EPOLLERR_def EPOLLHUP_def)
qed

text \<open>
  C2.  The guard \<^verbatim>\<open>if( !deleted )\<close> of \<^verbatim>\<open>DispatchLoop\<close> reads the flag that \<^verbatim>\<open>DispatchLoop\<close>
  installed, but \<^verbatim>\<open>OnReadNotify\<close> installs a flag of its own before it invokes the close
  callback of a \<^verbatim>\<open>CLOSING\<close> socket, and the destructor writes through the pointer installed
  last.  On an \<^verbatim>\<open>EPOLLIN | EPOLLOUT\<close> event for a \<^verbatim>\<open>CLOSING\<close> socket at end of file whose
  close callback destroys it, the flag of \<^verbatim>\<open>DispatchLoop\<close> stays false and
  \<^verbatim>\<open>OnWriteNotify\<close> is entered on the destroyed socket.  (The two lemmas above are the
  paths on which the guard works: \<^verbatim>\<open>OnException\<close>, and a read callback of a socket that
  is not \<^verbatim>\<open>CLOSING\<close>.)
\<close>

theorem DispatchEvent_calls_OnWriteNotify_after_delete:
  "DispatchEvent 8 (EPOLLIN OR EPOLLOUT) None example_closing
     = Some (UseAfterFree ''Socket::OnWriteNotify''
         (example_closing
            \<lparr>sock := (sock example_closing)
               \<lparr>can_read := True, notify_flag := Some OnReadNotify_deleted,
                user_close_callback := None\<rparr>,
             alive := False,
             deleted_in_DispatchLoop := False,
             deleted_in_OnReadNotify := True,
             invocations := [CloseInvoked StateOK]\<rparr>))"
  by (simp add: Dispatch_eval)


section \<open>\<^verbatim>\<open>ServerSocket::DoAccept\<close> when descriptors run out\<close>

lemma DoAccept_loop_EINTR:
  assumes "sys_results env = SysFailed EINTR # rs"
  shows "DoAccept_loop st env =
           DoAccept_loop st (env\<lparr>errno_value := EINTR,
             sys_calls := sys_calls env @ [Call_accept4 (listen_fd (srv env))],
             sys_results := rs\<rparr>)"
  using assms
  by (subst DoAccept_loop.simps) (simp add: sys_def EINTR_def EAGAIN_def EWOULDBLOCK_def)

lemma DoAccept_loop_EINTRs:
  assumes "sys_results env = replicate k (SysFailed EINTR) @ rs"
  shows "\<exists>env1. DoAccept_loop st env = DoAccept_loop st env1 \<and> srv env1 = srv env
           \<and> sys_calls env1 = sys_calls env @ replicate k (Call_accept4 (listen_fd (srv env)))
           \<and> sys_results env1 = rs"
  using assms
proof (induction k arbitrary: env)
  case 0
  then show ?case by auto
next
  case (Suc k)
  let ?env = "env\<lparr>errno_value := EINTR,
             sys_calls := sys_calls env @ [Call_accept4 (listen_fd (srv env))],
             sys_results := replicate k (SysFailed EINTR) @ rs\<rparr>"
  from Suc.prems have "sys_results env = SysFailed EINTR # (replicate k (SysFailed EINTR) @ rs)"
    by simp
  from DoAccept_loop_EINTR [OF this]
  have step: "DoAccept_loop st env = DoAccept_loop st ?env" .
  have "sys_results ?env = replicate k (SysFailed EINTR) @ rs" by simp
  from Suc.IH [OF this] obtain env1 where
    "DoAccept_loop st ?env = DoAccept_loop st env1" "srv env1 = srv ?env"
    "sys_calls env1 = sys_calls ?env @ replicate k (Call_accept4 (listen_fd (srv ?env)))"
    "sys_results env1 = rs"
    by blast
  with step have "DoAccept_loop st env = DoAccept_loop st env1 \<and> srv env1 = srv env
           \<and> sys_calls env1 = sys_calls env @ replicate (Suc k) (Call_accept4 (listen_fd (srv env)))
           \<and> sys_results env1 = rs"
    by (simp add: replicate_append_same)
  then show ?case by blast
qed

lemma DoAccept_loop_recover_closed:
  assumes e: "e = EMFILE \<or> e = ENFILE"
    and script: "sys_results env =
        SysFailed e # SysReturned 0 # SysReturned f # SysReturned 0 # SysReturned d # rest"
    and f: "0 < f" and d: "0 \<le> d"
  shows "DoAccept_loop st env = Some (Returned (- 1, StateError kSystem e,
      env\<lparr>srv := (srv env)\<lparr>dummy_fd := d\<rparr>, errno_value := e,
          sys_calls := sys_calls env @ [Call_accept4 (listen_fd (srv env)),
            Call_close (dummy_fd (srv env)), Call_accept (listen_fd (srv env)), Call_close f,
            Call_open_dev_null],
          sys_results := rest\<rparr>))"
  using assms
  by (subst DoAccept_loop.simps)
    (auto simp: sys_def HandleRunOutOfFD_def reopen_dummy_fd_def
      EINTR_def EAGAIN_def EWOULDBLOCK_def EMFILE_def ENFILE_def)

lemma DoAccept_loop_recover_nothing_accepted:
  assumes e: "e = EMFILE \<or> e = ENFILE"
    and script: "sys_results env = SysFailed e # SysReturned 0 # SysFailed e2 # SysReturned d # rest"
    and d: "0 \<le> d"
  shows "DoAccept_loop st env = Some (Returned (- 1, StateError kSystem e,
      env\<lparr>srv := (srv env)\<lparr>dummy_fd := d,
            srv_can_read := (srv_can_read (srv env) \<and> e2 \<noteq> EAGAIN \<and> e2 \<noteq> EWOULDBLOCK)\<rparr>,
          errno_value := e2,
          sys_calls := sys_calls env @ [Call_accept4 (listen_fd (srv env)),
            Call_close (dummy_fd (srv env)), Call_accept (listen_fd (srv env)),
            Call_open_dev_null],
          sys_results := rest\<rparr>))"
  using assms
  by (subst DoAccept_loop.simps)
    (auto simp: sys_def HandleRunOutOfFD_def reopen_dummy_fd_def
      EINTR_def EAGAIN_def EWOULDBLOCK_def EMFILE_def ENFILE_def)


lemma DoAccept_loop_close_dummy_fails:
  assumes "e = EMFILE \<or> e = ENFILE" "sys_results env = SysFailed e # c # rest"
    "sys_return c \<noteq> 0"
  shows "DoAccept_loop st env = Some Aborted"
  using assms
  by (subst DoAccept_loop.simps)
    (auto simp: sys_def sys_return_def HandleRunOutOfFD_def reopen_dummy_fd_def
      EINTR_def EAGAIN_def EWOULDBLOCK_def EMFILE_def ENFILE_def split: sys_result.splits)

lemma DoAccept_loop_close_accepted_fails:
  assumes "e = EMFILE \<or> e = ENFILE"
    "sys_results env = SysFailed e # SysReturned 0 # SysReturned f # c # rest"
    "0 < f" "sys_return c \<noteq> 0"
  shows "DoAccept_loop st env = Some Aborted"
  using assms
  by (subst DoAccept_loop.simps)
    (auto simp: sys_def sys_return_def HandleRunOutOfFD_def reopen_dummy_fd_def
      EINTR_def EAGAIN_def EWOULDBLOCK_def EMFILE_def ENFILE_def split: sys_result.splits)

lemma DoAccept_loop_reopen_fails_closed:
  assumes "e = EMFILE \<or> e = ENFILE"
    "sys_results env = SysFailed e # SysReturned 0 # SysReturned f # SysReturned 0 # opened # rest"
    "0 < f" "sys_return opened < 0"
  shows "DoAccept_loop st env = Some Aborted"
  using assms
  by (subst DoAccept_loop.simps)
    (auto simp: sys_def sys_return_def HandleRunOutOfFD_def reopen_dummy_fd_def
      EINTR_def EAGAIN_def EWOULDBLOCK_def EMFILE_def ENFILE_def split: sys_result.splits)

lemma DoAccept_loop_reopen_fails_nothing_accepted:
  assumes "e = EMFILE \<or> e = ENFILE"
    "sys_results env = SysFailed e # SysReturned 0 # SysFailed e2 # opened # rest"
    "sys_return opened < 0"
  shows "DoAccept_loop st env = Some Aborted"
  using assms
  by (subst DoAccept_loop.simps)
    (auto simp: sys_def sys_return_def HandleRunOutOfFD_def reopen_dummy_fd_def
      EINTR_def EAGAIN_def EWOULDBLOCK_def EMFILE_def ENFILE_def split: sys_result.splits)

lemma DoAccept_after_EINTRs:
  assumes "srv_can_read (srv env)" "sys_results env = replicate k (SysFailed EINTR) @ rs"
  shows "\<exists>env1. DoAccept st env = DoAccept_loop st env1 \<and> srv env1 = srv env
           \<and> sys_calls env1 = sys_calls env @ replicate k (Call_accept4 (listen_fd (srv env)))
           \<and> sys_results env1 = rs"
  using DoAccept_loop_EINTRs [OF assms(2), of st] assms(1) by (simp add: DoAccept_def)

text \<open>
  C7 (as amended).  A \<^verbatim>\<open>DoAccept\<close> call on a readable listener whose \<^verbatim>\<open>accept4\<close> fails with
  \<^verbatim>\<open>EMFILE\<close> or \<^verbatim>\<open>ENFILE\<close>, after any number of \<^verbatim>\<open>EINTR\<close> failures, and whose recovery
  \<^verbatim>\<open>accept\<close> fails or returns a descriptor \<open>f > 0\<close>:
  \<^item> \<^verbatim>\<open>close(dummy_fd_)\<close> is called first; when it does not return 0 the call aborts;
  \<^item> then \<^verbatim>\<open>accept\<close>; when it returns \<open>f > 0\<close>, \<open>f\<close> is closed, and the call aborts when that
    close does not return 0; when \<^verbatim>\<open>accept\<close> fails, nothing is closed after it;
  \<^item> then \<^verbatim>\<open>open("/dev/null")\<close>; when it returns a negative value the call aborts;
  \<^item> otherwise \<^verbatim>\<open>dummy_fd_\<close> is the descriptor \<^verbatim>\<open>open\<close> returned, no other call is made,
    \<^verbatim>\<open>DoAccept\<close> returns \<open>-1\<close> and reports the System-category \<^verbatim>\<open>NetState\<close> with the
    \<^verbatim>\<open>errno\<close> of the failed \<^verbatim>\<open>accept4\<close>; \<open>can_read\<close> stays set, except that it is cleared
    when the recovery \<^verbatim>\<open>accept\<close> failed with \<^verbatim>\<open>EAGAIN\<close>/\<^verbatim>\<open>EWOULDBLOCK\<close>.
\<close>

theorem DoAccept_recovers_from_exhaustion:
  assumes can: "srv_can_read (srv env)"
    and e: "e = EMFILE \<or> e = ENFILE"
  shows "(0 < f \<and> 0 \<le> d \<and> sys_results env = replicate k (SysFailed EINTR) @
              SysFailed e # SysReturned 0 # SysReturned f # SysReturned 0 # SysReturned d # rest
          \<longrightarrow>
          (\<exists>env'. DoAccept st env = Some (Returned (- 1, StateError kSystem e, env'))
             \<and> sys_calls env' = sys_calls env
                   @ replicate (Suc k) (Call_accept4 (listen_fd (srv env)))
                   @ [Call_close (dummy_fd (srv env)), Call_accept (listen_fd (srv env)),
                      Call_close f, Call_open_dev_null]
             \<and> srv env' = (srv env)\<lparr>dummy_fd := d\<rparr> \<and> sys_results env' = rest))
       \<and> (0 \<le> d \<and> sys_results env = replicate k (SysFailed EINTR) @
              SysFailed e # SysReturned 0 # SysFailed e2 # SysReturned d # rest
          \<longrightarrow>
          (\<exists>env'. DoAccept st env = Some (Returned (- 1, StateError kSystem e, env'))
             \<and> sys_calls env' = sys_calls env
                   @ replicate (Suc k) (Call_accept4 (listen_fd (srv env)))
                   @ [Call_close (dummy_fd (srv env)), Call_accept (listen_fd (srv env)),
                      Call_open_dev_null]
             \<and> srv env' = (srv env)\<lparr>dummy_fd := d,
                   srv_can_read := (e2 \<noteq> EAGAIN \<and> e2 \<noteq> EWOULDBLOCK)\<rparr>
             \<and> sys_results env' = rest))
       \<and> (sys_return c \<noteq> 0 \<and> sys_results env = replicate k (SysFailed EINTR) @
              SysFailed e # c # rest
          \<longrightarrow> DoAccept st env = Some Aborted)
       \<and> (0 < f \<and> sys_return c \<noteq> 0 \<and> sys_results env = replicate k (SysFailed EINTR) @
              SysFailed e # SysReturned 0 # SysReturned f # c # rest
          \<longrightarrow> DoAccept st env = Some Aborted)
       \<and> (0 < f \<and> sys_return opened < 0 \<and> sys_results env = replicate k (SysFailed EINTR) @
              SysFailed e # SysReturned 0 # SysReturned f # SysReturned 0 # opened # rest
          \<longrightarrow> DoAccept st env = Some Aborted)
       \<and> (sys_return opened < 0 \<and> sys_results env = replicate k (SysFailed EINTR) @
              SysFailed e # SysReturned 0 # SysFailed e2 # opened # rest
          \<longrightarrow> DoAccept st env = Some Aborted)"
proof (intro conjI impI)
  assume a: "0 < f \<and> 0 \<le> d \<and> sys_results env = replicate k (SysFailed EINTR) @
              SysFailed e # SysReturned 0 # SysReturned f # SysReturned 0 # SysReturned d # rest"
  then have f: "0 < f" and d: "0 \<le> d" by simp_all
  from a DoAccept_after_EINTRs [OF can, of k _ st] obtain env1 where
    env1: "DoAccept st env = DoAccept_loop st env1" "srv env1 = srv env"
      "sys_calls env1 = sys_calls env @ replicate k (Call_accept4 (listen_fd (srv env)))"
      "sys_results env1 =
         SysFailed e # SysReturned 0 # SysReturned f # SysReturned 0 # SysReturned d # rest"
    by blast
  from DoAccept_loop_recover_closed [OF e env1(4) f d, of st] env1
  show "\<exists>env'. DoAccept st env = Some (Returned (- 1, StateError kSystem e, env'))
             \<and> sys_calls env' = sys_calls env
                   @ replicate (Suc k) (Call_accept4 (listen_fd (srv env)))
                   @ [Call_close (dummy_fd (srv env)), Call_accept (listen_fd (srv env)),
                      Call_close f, Call_open_dev_null]
             \<and> srv env' = (srv env)\<lparr>dummy_fd := d\<rparr> \<and> sys_results env' = rest"
    by (simp add: replicate_append_same)
next
  assume a: "0 \<le> d \<and> sys_results env = replicate k (SysFailed EINTR) @
              SysFailed e # SysReturned 0 # SysFailed e2 # SysReturned d # rest"
  then have d: "0 \<le> d" by simp
  from a DoAccept_after_EINTRs [OF can, of k _ st] obtain env1 where
    env1: "DoAccept st env = DoAccept_loop st env1" "srv env1 = srv env"
      "sys_calls env1 = sys_calls env @ replicate k (Call_accept4 (listen_fd (srv env)))"
      "sys_results env1 = SysFailed e # SysReturned 0 # SysFailed e2 # SysReturned d # rest"
    by blast
  from DoAccept_loop_recover_nothing_accepted [OF e env1(4) d, of st] env1 can
  show "\<exists>env'. DoAccept st env = Some (Returned (- 1, StateError kSystem e, env'))
             \<and> sys_calls env' = sys_calls env
                   @ replicate (Suc k) (Call_accept4 (listen_fd (srv env)))
                   @ [Call_close (dummy_fd (srv env)), Call_accept (listen_fd (srv env)),
                      Call_open_dev_null]
             \<and> srv env' = (srv env)\<lparr>dummy_fd := d,
                   srv_can_read := (e2 \<noteq> EAGAIN \<and> e2 \<noteq> EWOULDBLOCK)\<rparr>
             \<and> sys_results env' = rest"
    by (simp add: replicate_append_same)
next
  assume a: "sys_return c \<noteq> 0 \<and> sys_results env = replicate k (SysFailed EINTR) @
              SysFailed e # c # rest"
  from a DoAccept_after_EINTRs [OF can, of k _ st] obtain env1 where
    env1: "DoAccept st env = DoAccept_loop st env1"
      "sys_results env1 = SysFailed e # c # rest"
    by blast
  from DoAccept_loop_close_dummy_fails [OF e env1(2), of st] a env1(1)
  show "DoAccept st env = Some Aborted" by simp
next
  assume a: "0 < f \<and> sys_return c \<noteq> 0 \<and> sys_results env = replicate k (SysFailed EINTR) @
              SysFailed e # SysReturned 0 # SysReturned f # c # rest"
  from a DoAccept_after_EINTRs [OF can, of k _ st] obtain env1 where
    env1: "DoAccept st env = DoAccept_loop st env1"
      "sys_results env1 = SysFailed e # SysReturned 0 # SysReturned f # c # rest"
    by blast
  from DoAccept_loop_close_accepted_fails [OF e env1(2), of st] a env1(1)
  show "DoAccept st env = Some Aborted" by simp
next
  assume a: "0 < f \<and> sys_return opened < 0 \<and> sys_results env = replicate k (SysFailed EINTR) @
              SysFailed e # SysReturned 0 # SysReturned f # SysReturned 0 # opened # rest"
  from a DoAccept_after_EINTRs [OF can, of k _ st] obtain env1 where
    env1: "DoAccept st env = DoAccept_loop st env1"
      "sys_results env1 =
         SysFailed e # SysReturned 0 # SysReturned f # SysReturned 0 # opened # rest"
    by blast
  from DoAccept_loop_reopen_fails_closed [OF e env1(2), of st] a env1(1)
  show "DoAccept st env = Some Aborted" by simp
next
  assume a: "sys_return opened < 0 \<and> sys_results env = replicate k (SysFailed EINTR) @
              SysFailed e # SysReturned 0 # SysFailed e2 # opened # rest"
  from a DoAccept_after_EINTRs [OF can, of k _ st] obtain env1 where
    env1: "DoAccept st env = DoAccept_loop st env1"
      "sys_results env1 = SysFailed e # SysReturned 0 # SysFailed e2 # opened # rest"
    by blast
  from DoAccept_loop_reopen_fails_nothing_accepted [OF e env1(2), of st] a env1(1)
  show "DoAccept st env = Some Aborted" by simp
qed

lemmas DoAccept_eval =
  DoAccept_def DoAccept_loop.simps sys_def HandleRunOutOfFD_def reopen_dummy_fd_def
  EINTR_def EAGAIN_def EWOULDBLOCK_def EMFILE_def ENFILE_def example_server_def

text \<open>
  C7 as stated fails: when the recovery \<^verbatim>\<open>accept\<close> itself fails no connection is closed,
  and when \<^verbatim>\<open>close(dummy_fd_)\<close> fails the process aborts and no state is reported.
\<close>

theorem DoAccept_recovery_counterexample:
  "DoAccept StateOK (example_server [SysFailed 24, SysReturned 0, SysFailed 11, SysReturned 4])
     = Some (Returned (- 1, StateError kSystem 24,
         \<lparr>srv = \<lparr>listen_fd = 3, dummy_fd = 4, srv_can_read = False\<rparr>, errno_value = 11,
          sys_calls = [Call_accept4 3, Call_close 4, Call_accept 3, Call_open_dev_null],
          sys_results = []\<rparr>))
   \<and> DoAccept StateOK (example_server [SysFailed 24, SysFailed 9]) = Some Aborted"
  by (simp add: DoAccept_eval)

theorem DoAccept_recovers_from_exhaustion_witness:
  "(\<exists>env'. DoAccept StateOK (example_server
        [SysFailed 4, SysFailed 24, SysReturned 0, SysReturned 4, SysReturned 0, SysReturned 4, SysReturned 9])
        = Some (Returned (- 1, StateError kSystem 24, env'))
      \<and> sys_calls env' = [Call_accept4 3, Call_accept4 3, Call_close 4, Call_accept 3, Call_close 4,
                             Call_open_dev_null]
      \<and> srv env' = \<lparr>listen_fd = 3, dummy_fd = 4, srv_can_read = True\<rparr>
      \<and> sys_results env' = [SysReturned 9])
   \<and> (\<exists>env'. DoAccept StateOK (example_server [SysFailed 23, SysReturned 0, SysFailed 103, SysReturned 6])
        = Some (Returned (- 1, StateError kSystem 23, env'))
      \<and> sys_calls env' = [Call_accept4 3, Call_close 4, Call_accept 3, Call_open_dev_null]
      \<and> srv env' = \<lparr>listen_fd = 3, dummy_fd = 6, srv_can_read = True\<rparr>
      \<and> sys_results env' = [])
   \<and> DoAccept StateOK (example_server [SysFailed 24, SysFailed 9]) = Some Aborted
   \<and> DoAccept StateOK (example_server [SysFailed 24, SysReturned 0, SysReturned 7, SysFailed 5])
       = Some Aborted
   \<and> DoAccept StateOK (example_server
        [SysFailed 24, SysReturned 0, SysReturned 7, SysReturned 0, SysFailed 24]) = Some Aborted
   \<and> DoAccept StateOK (example_server [SysFailed 24, SysReturned 0, SysFailed 103, SysFailed 24])
       = Some Aborted"
proof -
  let ?a = "[SysFailed 4, SysFailed 24, SysReturned 0, SysReturned 4, SysReturned 0, SysReturned 4,
             SysReturned 9]"
  let ?b = "[SysFailed 23, SysReturned 0, SysFailed 103, SysReturned 6]"
  let ?c = "[SysFailed 24, SysFailed 9]"
  let ?d = "[SysFailed 24, SysReturned 0, SysReturned 7, SysFailed 5]"
  let ?e = "[SysFailed 24, SysReturned 0, SysReturned 7, SysReturned 0, SysFailed 24]"
  let ?f = "[SysFailed 24, SysReturned 0, SysFailed 103, SysFailed 24]"
  have can: "srv_can_read (srv (example_server rs))" for rs
    by (simp add: example_server_def)
  have e: "(24 :: int) = EMFILE \<or> (24 :: int) = ENFILE" "(23 :: int) = EMFILE \<or> (23 :: int) = ENFILE"
    by (simp_all add: EMFILE_def ENFILE_def)
  note one = DoAccept_recovers_from_exhaustion [where env = "example_server ?a" and e = 24 and d = 4
      and f = 4 and k = 1 and rest = "[SysReturned 9]" and st = StateOK, OF can e(1),
      THEN conjunct1]
  note two = DoAccept_recovers_from_exhaustion [where env = "example_server ?b" and e = 23 and d = 6
      and k = 0 and rest = "[]" and st = StateOK and ?e2.0 = 103, OF can e(2),
      THEN conjunct2, THEN conjunct1]
  note three = DoAccept_recovers_from_exhaustion [where env = "example_server ?c" and e = 24
      and k = 0 and rest = "[]" and st = StateOK and c = "SysFailed 9", OF can e(1),
      THEN conjunct2, THEN conjunct2, THEN conjunct1]
  note four = DoAccept_recovers_from_exhaustion [where env = "example_server ?d" and e = 24
      and k = 0 and rest = "[]" and st = StateOK and c = "SysFailed 5" and f = 7, OF can e(1),
      THEN conjunct2, THEN conjunct2, THEN conjunct2, THEN conjunct1]
  note five = DoAccept_recovers_from_exhaustion [where env = "example_server ?e" and e = 24
      and k = 0 and rest = "[]" and st = StateOK and opened = "SysFailed 24" and f = 7,
      OF can e(1), THEN conjunct2, THEN conjunct2, THEN conjunct2, THEN conjunct2, THEN conjunct1]
  note six = DoAccept_recovers_from_exhaustion [where env = "example_server ?f" and e = 24
      and k = 0 and rest = "[]" and st = StateOK and opened = "SysFailed 24" and ?e2.0 = 103,
      OF can e(1), THEN conjunct2, THEN conjunct2, THEN conjunct2, THEN conjunct2, THEN conjunct2]
  show ?thesis
    using one two three four five six
    by (simp add: example_server_def EINTR_def EAGAIN_def EWOULDBLOCK_def sys_return_def)
qed

section \<open>\<^verbatim>\<open>IOManager::UpdateTimer\<close>\<close>

lemma heap_front_in_set: "q \<noteq> [] \<Longrightarrow> heap_front q \<in> set q"
  by (induction q rule: heap_front.induct) auto

lemma heap_front_least: "t \<in> set q \<Longrightarrow> time (heap_front q) \<le> time t"
  by (induction q rule: heap_front.induct) (auto split: if_splits)

text \<open>
  The timed-out branch: every entry is either fired exactly once or left in the queue,
  the entries fired are those whose time differs from the head's by less than
  \<^verbatim>\<open>kMinDiff\<close>, and they are fired in ascending order of time.
\<close>

lemma not_triggered_later:
  assumes "\<not> TIME_TRIGGER d x" "d \<le> x" "x \<le> y"
  shows "\<not> TIME_TRIGGER d y"
  using assms by (simp add: TIME_TRIGGER_def kMinDiff_def)

lemma fire_timers_fires:
  assumes "fire_timers d q fired = (q1, fired1)" "\<forall>t\<in>set q. d \<le> time t"
  shows "\<exists>ts. fired1 = fired @ map (\<lambda>t. (callback_id t, time t)) ts
           \<and> mset q = mset ts + mset q1
           \<and> (\<forall>t\<in>set ts. TIME_TRIGGER d (time t))
           \<and> (\<forall>t\<in>set q1. \<not> TIME_TRIGGER d (time t))
           \<and> sorted (map time ts)"
  using assms
proof (induction d q fired arbitrary: q1 fired1 rule: fire_timers.induct)
  case (1 diff q fired)
  show ?case
  proof (cases "q = []")
    case True
    with "1.prems" have "q1 = []" "fired1 = fired"
      by (simp_all add: fire_timers.simps)
    with True show ?thesis by simp
  next
    case False
    let ?f = "heap_front q"
    have fin: "?f \<in> set q" by (rule heap_front_in_set [OF False])
    show ?thesis
    proof (cases "TIME_TRIGGER diff (time ?f)")
      case True
      let ?fired = "fired @ [(callback_id ?f, time ?f)]"
      from "1.prems"(1) False True
      have run: "fire_timers diff (pop_heap q) ?fired = (q1, fired1)"
        by (subst (asm) fire_timers.simps) simp
      have sub: "set (pop_heap q) \<subseteq> set q"
        by (simp add: pop_heap_def set_remove1_subset)
      with "1.prems"(2) have ge: "\<forall>t\<in>set (pop_heap q). diff \<le> time t" by blast
      from "1.IH" [OF False True run ge] obtain ts where
        ts: "fired1 = ?fired @ map (\<lambda>t. (callback_id t, time t)) ts"
        "mset (pop_heap q) = mset ts + mset q1"
        "\<forall>t\<in>set ts. TIME_TRIGGER diff (time t)"
        "\<forall>t\<in>set q1. \<not> TIME_TRIGGER diff (time t)"
        "sorted (map time ts)"
        by blast
      have "mset q = add_mset ?f (mset (pop_heap q))"
        using fin by (simp add: pop_heap_def)
      then have "mset q = mset (?f # ts) + mset q1"
        using ts(2) by simp
      moreover have "set ts \<subseteq> set q"
        using ts(2) sub by (metis mset_subset_eq_add_left set_mset_mono set_mset_mset subset_trans)
      then have "\<forall>t\<in>set ts. time ?f \<le> time t"
        using heap_front_least by blast
      then have "sorted (map time (?f # ts))"
        using ts(5) by simp
      moreover have "fired1 = fired @ map (\<lambda>t. (callback_id t, time t)) (?f # ts)"
        using ts(1) by simp
      moreover have "\<forall>t\<in>set (?f # ts). TIME_TRIGGER diff (time t)"
        using ts(3) True by simp
      ultimately show ?thesis using ts(4) by blast
    next
      case nt: False
      with "1.prems"(1) False have "q1 = q" "fired1 = fired"
        by (simp_all add: fire_timers.simps)
      moreover have "\<forall>t\<in>set q. \<not> TIME_TRIGGER diff (time t)"
        using not_triggered_later [OF nt] "1.prems"(2) fin heap_front_least by blast
      ultimately show ?thesis by simp
    qed
  qed
qed

lemma UpdateTimer_timeout_fires:
  assumes "q \<noteq> []"
  shows "\<exists>ts q1. UpdateTimer 0 prev_time now q
             = TimerUpdate now q1 (map (\<lambda>t. (callback_id t, time t)) ts)
           \<and> mset q = mset ts + mset q1
           \<and> (\<forall>t\<in>set ts. \<bar>time t - time (heap_front q)\<bar> < 3)
           \<and> (\<forall>t\<in>set q1. \<not> \<bar>time t - time (heap_front q)\<bar> < 3)
           \<and> sorted (map time ts)"
proof -
  obtain q1 fired1 where run: "fire_timers (time (heap_front q)) q [] = (q1, fired1)"
    by (cases "fire_timers (time (heap_front q)) q []") auto
  have "\<forall>t\<in>set q. time (heap_front q) \<le> time t"
    using heap_front_least by blast
  from fire_timers_fires [OF run this] assms run show ?thesis
    by (auto simp: UpdateTimer_def TIME_TRIGGER_def kMinDiff_def)
qed

text \<open>The timed-out branch returns the clock value itself.\<close>

lemma UpdateTimer_timeout_baseline:
  "q \<noteq> [] \<Longrightarrow> new_baseline (UpdateTimer 0 prev_time now q) = now"
  by (simp add: UpdateTimer_def split: prod.splits)

text \<open>
  The branch for a non-empty batch returns the low 32 bits of the clock value, sign
  extended, and subtracts from every entry the low 32 bits of the difference to the
  previous baseline, read as a signed number.
\<close>

lemma UpdateTimer_batch:
  assumes "q \<noteq> []" "0 < event_sz"
  shows "UpdateTimer event_sz prev_time now q =
           TimerUpdate (scast (ucast now :: 32 word))
             (map (\<lambda>t. t\<lparr>time := time t
                  - sint (ucast ((scast (ucast now :: 32 word) :: 64 word) - prev_time) :: 32 word)\<rparr>) q)
             []"
  using assms by (simp add: UpdateTimer_def Let_def)

text \<open>
  A clock value of \<open>2^31\<close> ms or more (any time after January 1970) does not survive the
  passage through \<^verbatim>\<open>int\<close>.
\<close>

lemma truncated_clock_differs:
  fixes now :: "64 word"
  assumes "2 ^ 31 \<le> now" "now < 2 ^ 63"
  shows "(scast (ucast now :: 32 word) :: 64 word) \<noteq> now"
proof
  assume eq: "(scast (ucast now :: 32 word) :: 64 word) = now"
  have "now AND mask 63 = now"
    using assms(2) by (rule less_mask_eq)
  then have "take_bit 63 now = now"
    by (simp add: take_bit_eq_mask)
  then have b63: "\<not> bit now 63"
    by (metis bit_take_bit_iff less_irrefl)
  have "bit (scast (ucast now :: 32 word) :: 64 word) 63 = bit now 31"
    by (simp add: bit_signed_iff bit_unsigned_iff)
  with eq b63 have b31: "\<not> bit now 31" by simp
  have hi: "\<not> bit now n" if "31 \<le> n" for n
  proof (cases "n < 64")
    case True
    have "bit (scast (ucast now :: 32 word) :: 64 word) n = bit now 31"
      using that True by (auto simp: bit_signed_iff bit_unsigned_iff min_def)
    with eq b31 show ?thesis by simp
  next
    case False
    then show ?thesis using bit_imp_le_length [of now n] by auto
  qed
  have "take_bit 31 now = now"
    by (rule bit_word_eqI) (use hi in \<open>auto simp: bit_take_bit_iff not_le [symmetric]\<close>)
  then have "now AND mask 31 = now"
    by (simp add: take_bit_eq_mask)
  moreover have "now AND mask 31 < 2 ^ 31"
    by (rule and_mask_less_size) (simp add: word_size)
  ultimately have "now < 2 ^ 31"
    by simp
  with assms(1) show False by simp
qed

lemma UpdateTimer_batch_baseline_differs:
  assumes "q \<noteq> []" "0 < event_sz" "2 ^ 31 \<le> now" "now < 2 ^ 63"
  shows "new_baseline (UpdateTimer event_sz prev_time now q) \<noteq> now"
  using UpdateTimer_batch [OF assms(1,2)] truncated_clock_differs [OF assms(3,4)] by simp

text \<open>
  C5.  With a non-empty batch the value returned is not the current time: the clock value
  passes through \<^verbatim>\<open>int ret\<close>.  At the clock value 1700000000000 ms (November 2023) and a
  previous baseline one second earlier, the elapsed 1000 ms are subtracted from the
  entry, and the value returned as the new baseline is 18446744072902502400.  (With an
  empty batch the timers within the band of the head are fired in order and the clock
  value itself is returned: \<open>UpdateTimer_timeout_baseline\<close>.)
\<close>

theorem UpdateTimer_truncates_baseline:
  "UpdateTimer 1 1699999999000 1700000000000 [\<lparr>time = 60000, callback_id = 7\<rparr>]
     = TimerUpdate 18446744072902502400 [\<lparr>time = 59000, callback_id = 7\<rparr>] []"
  by (simp add: UpdateTimer_def Let_def)

text \<open>A timed-out run: the entries at 10 and 12 ms fire in that order, the entry at 13 ms
  (three milliseconds after the head) and the one at 500 ms stay.\<close>

lemma UpdateTimer_timeout_example:
  "UpdateTimer 0 1699999999000 1700000000000
     [\<lparr>time = 12, callback_id = 1\<rparr>, \<lparr>time = 10, callback_id = 2\<rparr>, \<lparr>time = 13, callback_id = 3\<rparr>,
      \<lparr>time = 500, callback_id = 4\<rparr>]
   = TimerUpdate 1700000000000 [\<lparr>time = 13, callback_id = 3\<rparr>, \<lparr>time = 500, callback_id = 4\<rparr>]
       [(2, 10), (1, 12)]"
  by (simp add: UpdateTimer_def Let_def fire_timers.simps pop_heap_def TIME_TRIGGER_def kMinDiff_def)

end
